theory Spec2Isabelle
  imports Main "HOL-Library.Word"
begin

unbundle bit_operations_syntax

section \<open>Common types and constants\<close>

text \<open>
  The sources are C. A \<^verbatim>\<open>uint8_t\<close> is an 8-bit word, a \<^verbatim>\<open>uint32_t\<close> a 32-bit word and a
  \<^verbatim>\<open>uint64_t\<close> a 64-bit word. Error codes are the \<^verbatim>\<open>int\<close> values of errno.h.
\<close>

type_synonym u8 = "8 word"
type_synonym u32 = "32 word"
type_synonym u64 = "64 word"

definition ENOMEM :: int where "ENOMEM = 12"
definition EACCES :: int where "EACCES = 13"
definition EFAULT :: int where "EFAULT = 14"
definition EINVAL :: int where "EINVAL = 22"

text \<open>
  Modelled from the spec: the macro ROUND_TO of ema.h (the header is not among the sources):
  rounding up to a multiple of the power of two \<^verbatim>\<open>align\<close>, computed in \<^verbatim>\<open>size_t\<close>, that
  is in 64-bit arithmetic that wraps around.
\<close>

definition ROUND_TO :: "nat \<Rightarrow> nat \<Rightarrow> nat" where
  "ROUND_TO x align =
     unat (((word_of_nat x :: u64) + (word_of_nat align - 1)) AND NOT (word_of_nat align - 1))"

section \<open>Results of calls\<close>

text \<open>
  A C function of this code can return, call \<^verbatim>\<open>abort()\<close>, or never return. The result of a
  call that may do any of the three is an \<^verbatim>\<open>outcome option\<close>: \<^verbatim>\<open>Some (Returned x)\<close> when it
  returns \<^verbatim>\<open>x\<close>, \<^verbatim>\<open>Some Aborted\<close> when it aborts, \<^verbatim>\<open>None\<close> when it does not return.
  \<^verbatim>\<open>bind_res\<close> is sequential composition: what follows a call happens only when the call returns.
\<close>

datatype 'a outcome = Returned 'a | Aborted

definition bind_res :: "'a outcome option \<Rightarrow> ('a \<Rightarrow> 'b outcome option) \<Rightarrow> 'b outcome option" where
  "bind_res m f =
     (case m of None \<Rightarrow> None | Some Aborted \<Rightarrow> Some Aborted | Some (Returned x) \<Rightarrow> f x)"

section \<open>The internal heap, as seen by its callers\<close>

text \<open>
  The bit array and the EMA code obtain their memory from emalloc and return it with efree.
  A call of emalloc either fails (NULL) or returns a block of memory whose contents are
  whatever the block held before. A call of efree returns, aborts, or does not return (the
  free path itself is modelled in the section on emalloc.c below). What happens depends on the
  whole history of the internal heap and, through add_reserve, on sgx_mm_alloc; the callers
  are therefore verified for every sequence of outcomes of the two functions. The two
  sequences are parameters: the head of \<^verbatim>\<open>allocs\<close> is the outcome of the next call of emalloc,
  and an exhausted list means that the heap is out of memory; the head of \<^verbatim>\<open>frees\<close> is the
  outcome of the next call of efree, and an exhausted list means that efree returns.
\<close>

datatype block = Block (addr_of: nat) (bytes_of: "nat \<Rightarrow> u8")

datatype free_outcome = Free_returns | Free_aborts | Free_hangs

record heap =
  allocs :: "block option list"
  frees :: "free_outcome list"

definition emalloc_outcome :: "nat \<Rightarrow> heap \<Rightarrow> block option \<times> heap" where
  "emalloc_outcome sz h =
     (case allocs h of [] \<Rightarrow> (None, h) | r # rs \<Rightarrow> (r, h\<lparr>allocs := rs\<rparr>))"

definition efree_outcome :: "heap \<Rightarrow> heap outcome option" where
  "efree_outcome h =
     (case frees h of
        [] \<Rightarrow> Some (Returned h)
      | Free_returns # fs \<Rightarrow> Some (Returned (h\<lparr>frees := fs\<rparr>))
      | Free_aborts # fs \<Rightarrow> Some Aborted
      | Free_hangs # fs \<Rightarrow> None)"

section \<open>Bit array\<close>

text \<open>
  A \<^verbatim>\<open>bit_array\<close> has the two sizes and the buffer \<^verbatim>\<open>data\<close>. The buffer is modelled by
  the bytes found at \<^verbatim>\<open>data[0]\<close>, \<^verbatim>\<open>data[1]\<close>, ...; indices at or beyond
  \<^verbatim>\<open>n_bytes\<close> read the memory that follows the buffer, as the C code does.
\<close>

record bit_array =
  n_bytes :: nat
  n_bits :: nat
  data :: "nat \<Rightarrow> u8"

definition NUM_OF_BYTES :: "nat \<Rightarrow> nat" where
  "NUM_OF_BYTES nbits = drop_bit 3 (ROUND_TO nbits 8)"

definition TEST_BIT :: "(nat \<Rightarrow> u8) \<Rightarrow> nat \<Rightarrow> bool" where
  "TEST_BIT A p = (A (p div 8) AND push_bit (p mod 8) 1 \<noteq> 0)"

definition SET_BIT :: "(nat \<Rightarrow> u8) \<Rightarrow> nat \<Rightarrow> (nat \<Rightarrow> u8)" where
  "SET_BIT A p = A(p div 8 := A (p div 8) OR push_bit (p mod 8) 1)"

definition memset :: "(nat \<Rightarrow> u8) \<Rightarrow> u8 \<Rightarrow> nat \<Rightarrow> (nat \<Rightarrow> u8)" where
  "memset d c n = (\<lambda>i. if i < n then c else d i)"

text \<open>
  bit_array_new: the two early returns come before any call of emalloc. When the buffer
  cannot be allocated the descriptor is returned to the heap with efree.
\<close>

definition bit_array_new :: "nat \<Rightarrow> heap \<Rightarrow> (bit_array option \<times> heap) outcome option" where
  "bit_array_new num_of_bits h =
     (if num_of_bits = 0 then Some (Returned (None, h))
      else if ROUND_TO num_of_bits 8 < num_of_bits then Some (Returned (None, h))
      else
        let nb = NUM_OF_BYTES num_of_bits in
        (case emalloc_outcome 24 h of
           (None, h1) \<Rightarrow> Some (Returned (None, h1))
         | (Some ba, h1) \<Rightarrow>
             (case emalloc_outcome nb h1 of
                (None, h2) \<Rightarrow> bind_res (efree_outcome h2) (\<lambda>h3. Some (Returned (None, h3)))
              | (Some d, h2) \<Rightarrow>
                  Some (Returned
                    (Some \<lparr>n_bytes = nb, n_bits = num_of_bits, data = bytes_of d\<rparr>, h2)))))"

definition bit_array_new_set :: "nat \<Rightarrow> heap \<Rightarrow> (bit_array option \<times> heap) outcome option" where
  "bit_array_new_set num_of_bits h =
     bind_res (bit_array_new num_of_bits h) (\<lambda>(r, h1).
       case r of
         None \<Rightarrow> Some (Returned (None, h1))
       | Some ba \<Rightarrow>
           Some (Returned (Some (ba\<lparr>data := memset (data ba) 0xFF (n_bytes ba)\<rparr>), h1)))"

definition bit_array_new_reset :: "nat \<Rightarrow> heap \<Rightarrow> (bit_array option \<times> heap) outcome option" where
  "bit_array_new_reset num_of_bits h =
     bind_res (bit_array_new num_of_bits h) (\<lambda>(r, h1).
       case r of
         None \<Rightarrow> Some (Returned (None, h1))
       | Some ba \<Rightarrow>
           Some (Returned (Some (ba\<lparr>data := memset (data ba) 0 (n_bytes ba)\<rparr>), h1)))"

definition bit_array_test :: "bit_array \<Rightarrow> nat \<Rightarrow> bool" where
  "bit_array_test ba pos = TEST_BIT (data ba) pos"

definition bit_array_set :: "bit_array \<Rightarrow> nat \<Rightarrow> bit_array" where
  "bit_array_set ba pos = ba\<lparr>data := SET_BIT (data ba) pos\<rparr>"

definition bit_array_set_all :: "bit_array \<Rightarrow> bit_array" where
  "bit_array_set_all ba = ba\<lparr>data := memset (data ba) 0xFF (n_bytes ba)\<rparr>"

definition bit_array_reset_all :: "bit_array \<Rightarrow> bit_array" where
  "bit_array_reset_all ba = ba\<lparr>data := memset (data ba) 0 (n_bytes ba)\<rparr>"

text \<open>
  bit_array_reattach frees the old buffer with efree and adopts the new one. An array of the
  model always has its buffer (bit_array_new, the only function that creates an array, returns
  one only when the buffer was allocated, and nothing sets \<^verbatim>\<open>data\<close> to NULL), so the test
  \<^verbatim>\<open>if (ba->data)\<close> holds and efree is called.
\<close>

definition bit_array_reattach ::
  "bit_array \<Rightarrow> nat \<Rightarrow> (nat \<Rightarrow> u8) \<Rightarrow> heap \<Rightarrow> (bit_array \<times> heap) outcome option" where
  "bit_array_reattach ba num_of_bits d h =
     bind_res (efree_outcome h) (\<lambda>h1.
       Some (Returned
         (ba\<lparr>n_bytes := NUM_OF_BYTES num_of_bits, n_bits := num_of_bits, data := d\<rparr>, h1)))"

text \<open>
  The loops of bit_array_split. \<^verbatim>\<open>copy_low\<close> is the \<^verbatim>\<open>for\<close> loop that copies the whole
  bytes of the lower part; it returns the buffer and the final value of \<^verbatim>\<open>i\<close>.
  \<^verbatim>\<open>shift_high\<close> is the \<^verbatim>\<open>while\<close> loop that fills the whole bytes of the higher part
  from two neighbouring source bytes; it returns \<^verbatim>\<open>bits_remain\<close>, \<^verbatim>\<open>curr_byte\<close>,
  \<^verbatim>\<open>dst_byte\<close> and the buffer.
\<close>

function copy_low :: "(nat \<Rightarrow> u8) \<Rightarrow> nat \<Rightarrow> nat \<Rightarrow> (nat \<Rightarrow> u8) \<Rightarrow> (nat \<Rightarrow> u8) \<times> nat" where
  "copy_low src byte_index i dst =
     (if i < byte_index then copy_low src byte_index (i + 1) (dst(i := src i)) else (dst, i))"
  by pat_completeness auto
termination
  by (relation "measure (\<lambda>(src, byte_index, i, dst). byte_index - i)") auto

function shift_high ::
  "(nat \<Rightarrow> u8) \<Rightarrow> nat \<Rightarrow> nat \<Rightarrow> nat \<Rightarrow> nat \<Rightarrow> (nat \<Rightarrow> u8) \<Rightarrow> nat \<times> nat \<times> nat \<times> (nat \<Rightarrow> u8)" where
  "shift_high src bit_index bits_remain curr_byte dst_byte dst =
     (if bits_remain \<ge> 8 then
        let u1 = drop_bit bit_index (src curr_byte);
            u2 = push_bit (8 - bit_index) (src (curr_byte + 1))
        in shift_high src bit_index (bits_remain - 8) (curr_byte + 1) (dst_byte + 1)
             (dst(dst_byte := u1 OR u2))
      else (bits_remain, curr_byte, dst_byte, dst))"
  by pat_completeness auto
termination
  by (relation "measure (\<lambda>(src, bit_index, bits_remain, curr_byte, dst_byte, dst). bits_remain)")
    auto

declare copy_low.simps [simp del]
declare shift_high.simps [simp del]

text \<open>
  bit_array_split returns the error code and the two out parameters; on ENOMEM the out
  parameters are not written (the caller's initial NULLs stay). When the higher array cannot
  be created, the buffer allocated for the lower part is returned with efree.
\<close>

definition bit_array_split ::
  "bit_array \<Rightarrow> nat \<Rightarrow> heap \<Rightarrow>
     (int \<times> bit_array option \<times> bit_array option \<times> heap) outcome option" where
  "bit_array_split ba pos h =
     (if pos = 0 then Some (Returned (0, None, Some ba, h))
      else if pos \<ge> n_bits ba then Some (Returned (0, Some ba, None, h))
      else
        let byte_index = pos div 8;
            bit_index = pos mod 8;
            l_bits = push_bit 3 byte_index + bit_index;
            l_bytes = NUM_OF_BYTES l_bits;
            r_bits = n_bits ba - l_bits
        in
        (case emalloc_outcome l_bytes h of
           (None, h1) \<Rightarrow> Some (Returned (ENOMEM, None, None, h1))
         | (Some d, h1) \<Rightarrow>
             let (d0, i) = copy_low (data ba) byte_index 0 (bytes_of d);
                 d1 = (if bit_index > 0
                       then d0(i := data ba i AND (push_bit bit_index 1 - 1))
                       else d0)
             in
             bind_res (bit_array_new r_bits h1) (\<lambda>(new_ba, h2).
               case new_ba of
                 None \<Rightarrow>
                   bind_res (efree_outcome h2) (\<lambda>h3. Some (Returned (ENOMEM, None, None, h3)))
               | Some ba2 \<Rightarrow>
                   let (bits_remain, curr_byte, dst_byte, e0) =
                         shift_high (data ba) bit_index r_bits byte_index 0 (data ba2);
                       e1 = (if bits_remain > 8 - bit_index then
                               e0(dst_byte := drop_bit bit_index (data ba curr_byte)
                                    OR push_bit (8 - bit_index) (data ba (curr_byte + 1)))
                             else if bits_remain > 0 then
                               e0(dst_byte := drop_bit bit_index (data ba curr_byte))
                             else e0)
                   in
                   bind_res (bit_array_reattach ba l_bits d1 h2) (\<lambda>(lower, h3).
                     Some (Returned (0, Some lower, Some (ba2\<lparr>data := e1\<rparr>), h3))))))"

section \<open>Internal heap (emalloc.c): the free path\<close>

text \<open>
  The internal heap keeps its bookkeeping inside the memory it manages: a block starts with
  the 8-byte \<^verbatim>\<open>header\<close> (size OR'ed with the allocated bit) and, when free, holds the two list
  pointers \<^verbatim>\<open>next_prev[0]\<close> and \<^verbatim>\<open>next_prev[1]\<close> in the following two 8-byte words. The
  memory is modelled as a store of 8-byte words indexed by their byte address: for a block at
  address \<^verbatim>\<open>b\<close> the header is the word at \<^verbatim>\<open>b\<close>, \<^verbatim>\<open>next_prev[0]\<close> the word at \<^verbatim>\<open>b + 8\<close> and
  \<^verbatim>\<open>next_prev[1]\<close> the word at \<^verbatim>\<open>b + 16\<close> (blocks are 8-byte aligned). Pointers are 64-bit
  words, NULL is 0, and pointer arithmetic wraps around as \<^verbatim>\<open>size_t\<close> arithmetic does.
  The chain of reserves \<^verbatim>\<open>reserve_list\<close>, linked by \<^verbatim>\<open>next\<close>, is the list of its records in
  chain order; a pointer to a reserve is its position in the chain.

  A loop that need not terminate is a partial function into \<^verbatim>\<open>option\<close>: \<^verbatim>\<open>None\<close> means that
  the call does not return.
\<close>

record mm_reserve =
  base :: u64
  rsize :: u64
  used :: u64

record emalloc_state =
  mem :: "u64 \<Rightarrow> u64"
  exact_block_list :: "nat \<Rightarrow> u64"
  large_block_list :: u64
  reserve_list :: "mm_reserve list"
  adding_reserve :: bool
  meta_reserve :: u64

definition META_RESERVE_SIZE :: u64 where "META_RESERVE_SIZE = 0x10000"
definition header_size :: u64 where "header_size = 8"
definition exact_match_increment :: u64 where "exact_match_increment = 0x8"
definition min_block_size :: u64 where "min_block_size = 0x10"
definition num_exact_list :: u64 where "num_exact_list = 0x100"
definition max_exact_size :: u64 where
  "max_exact_size = min_block_size + exact_match_increment * (num_exact_list - 1)"
definition alloc_mask :: u64 where "alloc_mask = 1"
definition size_mask :: u64 where "size_mask = NOT (exact_match_increment - 1)"

definition payload_to_block :: "u64 \<Rightarrow> u64" where
  "payload_to_block p = p - header_size"

definition is_alloced :: "emalloc_state \<Rightarrow> u64 \<Rightarrow> bool" where
  "is_alloced s b = (alloc_mask AND mem s b \<noteq> 0)"

definition block_size :: "emalloc_state \<Rightarrow> u64 \<Rightarrow> u64" where
  "block_size s b = mem s b AND size_mask"

definition block_end :: "emalloc_state \<Rightarrow> u64 \<Rightarrow> u64" where
  "block_end s b = b + block_size s b"

text \<open>The \<^verbatim>\<open>while (r)\<close> loop of find_used_in_reserve, with the position of \<^verbatim>\<open>r\<close> in the chain.\<close>

fun find_used_from :: "mm_reserve list \<Rightarrow> nat \<Rightarrow> u64 \<Rightarrow> u64 \<Rightarrow> nat option" where
  "find_used_from [] i addr sz = None"
| "find_used_from (r # rs) i addr sz =
     (if addr \<ge> base r \<and> addr + sz \<le> base r + used r then Some i
      else find_used_from rs (i + 1) addr sz)"

definition find_used_in_reserve :: "emalloc_state \<Rightarrow> u64 \<Rightarrow> u64 \<Rightarrow> nat option" where
  "find_used_in_reserve s addr sz =
     (if sz = 0 then None else find_used_from (reserve_list s) 0 addr sz)"

text \<open>The asserts of get_list_idx are compiled out (the Makefile sets NDEBUG).\<close>

definition get_list_idx :: "u64 \<Rightarrow> nat" where
  "get_list_idx sz =
     (if sz < min_block_size then 0
      else unat ((sz - min_block_size) div exact_match_increment))"

text \<open>
  The \<^verbatim>\<open>block_t**\<close> arguments of remove_from_list and prepend_to_list are the addresses of
  \<^verbatim>\<open>large_block_list\<close> or of one entry of \<^verbatim>\<open>exact_block_list\<close>.
\<close>

datatype list_head = Large_list | Exact_list nat

fun head_of :: "emalloc_state \<Rightarrow> list_head \<Rightarrow> u64" where
  "head_of s Large_list = large_block_list s"
| "head_of s (Exact_list l) = exact_block_list s l"

fun set_head :: "emalloc_state \<Rightarrow> list_head \<Rightarrow> u64 \<Rightarrow> emalloc_state" where
  "set_head s Large_list v = s\<lparr>large_block_list := v\<rparr>"
| "set_head s (Exact_list l) v = s\<lparr>exact_block_list := (exact_block_list s)(l := v)\<rparr>"

definition store :: "emalloc_state \<Rightarrow> u64 \<Rightarrow> u64 \<Rightarrow> emalloc_state" where
  "store s a v = s\<lparr>mem := (mem s)(a := v)\<rparr>"

definition remove_from_list :: "emalloc_state \<Rightarrow> u64 \<Rightarrow> list_head \<Rightarrow> emalloc_state" where
  "remove_from_list s b list_head =
     (let bsize = block_size s b in
      if b = head_of s list_head then
        let s1 = set_head s list_head (mem s (b + 8)) in
        if head_of s1 list_head \<noteq> 0 \<and> bsize > min_block_size
        then store s1 (head_of s1 list_head + 16) 0
        else s1
      else
        let prev = (if bsize > min_block_size then mem s (b + 16) else 0);
            next = mem s (b + 8);
            s1 = (if prev \<noteq> 0 then store s (prev + 8) next else s);
            s2 = (if next \<noteq> 0 then store s1 (next + 16) prev else s1)
        in s2)"

definition remove_from_lists :: "emalloc_state \<Rightarrow> u64 \<Rightarrow> emalloc_state" where
  "remove_from_lists s b =
     (let bsize = block_size s b in
      if bsize > max_exact_size then remove_from_list s b Large_list
      else remove_from_list s b (Exact_list (get_list_idx bsize)))"

definition prepend_to_list :: "emalloc_state \<Rightarrow> u64 \<Rightarrow> list_head \<Rightarrow> emalloc_state" where
  "prepend_to_list s b head =
     (let s1 = store s (b + 8) (head_of s head);
          s2 = (if head_of s1 head \<noteq> 0 \<and> block_size s1 (head_of s1 head) > min_block_size
                then store s1 (head_of s1 head + 16) b
                else s1)
      in set_head s2 head b)"

definition put_exact_block :: "emalloc_state \<Rightarrow> u64 \<Rightarrow> emalloc_state" where
  "put_exact_block s b = prepend_to_list s b (Exact_list (get_list_idx (block_size s b)))"

definition neighbor_right :: "emalloc_state \<Rightarrow> u64 \<Rightarrow> u64" where
  "neighbor_right s me =
     (let end = block_end s me in
      case find_used_in_reserve s me end of
        None \<Rightarrow> 0
      | Some r1 \<Rightarrow>
          if end = base (reserve_list s ! r1) + used (reserve_list s ! r1) then 0
          else if find_used_in_reserve s end (block_size s end) \<noteq> Some r1 then 0
          else end)"

text \<open>
  possibly_merge: \<^verbatim>\<open>merge_loop\<close> is its \<^verbatim>\<open>while\<close> loop. The loop tests \<^verbatim>\<open>is_alloced(nr)\<close> and
  never assigns \<^verbatim>\<open>nr\<close>. The function returns its argument \<^verbatim>\<open>b\<close>, so the model returns the
  state only.
\<close>

partial_function (option) merge_loop :: "emalloc_state \<Rightarrow> u64 \<Rightarrow> u64 \<Rightarrow> emalloc_state option" where
  "merge_loop s b nr =
     (if nr \<noteq> 0 \<and> is_alloced s nr then
        (let s1 = remove_from_lists s nr;
             s2 = store s1 b (mem s1 b + block_size s1 nr)
         in merge_loop s2 b nr)
      else Some s)"

definition possibly_merge :: "emalloc_state \<Rightarrow> u64 \<Rightarrow> emalloc_state option" where
  "possibly_merge s b = merge_loop s b (neighbor_right s b)"

definition put_free_block :: "emalloc_state \<Rightarrow> u64 \<Rightarrow> emalloc_state" where
  "put_free_block s e =
     (if block_size s e \<le> max_exact_size then put_exact_block s e
      else prepend_to_list s e Large_list)"

text \<open>get_large_block_end_at: \<^verbatim>\<open>large_scan\<close> is its loop over the large list.\<close>

partial_function (option) large_scan ::
  "emalloc_state \<Rightarrow> u64 \<Rightarrow> u64 \<Rightarrow> (u64 \<times> emalloc_state) option" where
  "large_scan s addr tmp =
     (if tmp \<noteq> 0 then
        (if tmp + mem s tmp = addr then Some (tmp, remove_from_list s tmp Large_list)
         else large_scan s addr (mem s (tmp + 8)))
      else Some (0, s))"

definition get_large_block_end_at :: "emalloc_state \<Rightarrow> u64 \<Rightarrow> (u64 \<times> emalloc_state) option" where
  "get_large_block_end_at s addr =
     (if large_block_list s = 0 then Some (0, s) else large_scan s addr (large_block_list s))"

text \<open>
  merge_large_blocks_to_reserve: \<^verbatim>\<open>merge_large_loop\<close> is its \<^verbatim>\<open>while (merge != NULL)\<close> loop,
  which returns the final \<^verbatim>\<open>used_end\<close>.
\<close>

partial_function (option) merge_large_loop ::
  "emalloc_state \<Rightarrow> u64 \<Rightarrow> u64 \<Rightarrow> (u64 \<times> emalloc_state) option" where
  "merge_large_loop s used_end merge =
     (if merge \<noteq> 0 then
        Option.bind (get_large_block_end_at s (used_end - mem s merge))
          (\<lambda>(merge', s'). merge_large_loop s' (used_end - mem s merge) merge')
      else Some (used_end, s))"

definition set_used :: "emalloc_state \<Rightarrow> nat \<Rightarrow> u64 \<Rightarrow> emalloc_state" where
  "set_used s r v = s\<lparr>reserve_list := (reserve_list s)[r := (reserve_list s ! r)\<lparr>used := v\<rparr>]\<rparr>"

definition merge_large_blocks_to_reserve :: "emalloc_state \<Rightarrow> nat \<Rightarrow> emalloc_state option" where
  "merge_large_blocks_to_reserve s r =
     (let used_end = base (reserve_list s ! r) + used (reserve_list s ! r) in
      Option.bind (get_large_block_end_at s used_end) (\<lambda>(merge, s1).
      Option.bind (merge_large_loop s1 used_end merge) (\<lambda>(used_end', s2).
      Some (set_used s2 r (used_end' - base (reserve_list s2 ! r))))))"

definition reconfigure_block :: "emalloc_state \<Rightarrow> u64 \<Rightarrow> emalloc_state option" where
  "reconfigure_block s b =
     (let s1 = store s b (mem s b AND size_mask);
          s2 = store s1 (b + 8) 0;
          s3 = (if mem s2 b > min_block_size then store s2 (b + 16) 0 else s2)
      in possibly_merge s3 b)"

text \<open>
  efree. The two asserts in the meta-reserve branch are compiled out. The result is \<^verbatim>\<open>None\<close>
  when the call does not return, \<^verbatim>\<open>Some Aborted\<close> when it calls \<^verbatim>\<open>abort()\<close>, and the new
  state otherwise.
\<close>

definition efree :: "emalloc_state \<Rightarrow> u64 \<Rightarrow> emalloc_state outcome option" where
  "efree s payload =
     (let b = payload_to_block payload;
          bstart = b;
          bsize = block_size s b
      in
      if bstart < meta_reserve s + META_RESERVE_SIZE \<and> bstart + bsize > meta_reserve s then
        (if adding_reserve s then Some (Returned s) else Some Aborted)
      else
        (case find_used_in_reserve s b (block_size s b) of
           None \<Rightarrow> Some Aborted
         | Some r \<Rightarrow>
             Option.bind (reconfigure_block s b) (\<lambda>s1.
               let end = block_end s1 b in
               if end - base (reserve_list s1 ! r) = used (reserve_list s1 ! r) then
                 Option.bind
                   (merge_large_blocks_to_reserve
                      (set_used s1 r (used (reserve_list s1 ! r) - mem s1 b)) r)
                   (\<lambda>s2. Some (Returned s2))
               else Some (Returned (put_free_block s1 b)))))"

section \<open>Enclave memory areas (ema.c)\<close>

text \<open>
  Addresses and sizes are \<^verbatim>\<open>size_t\<close> values: natural numbers below \<^verbatim>\<open>2 ^ 64\<close>, with the
  wrap-around of the C arithmetic written out in \<^verbatim>\<open>add_sz\<close> and \<^verbatim>\<open>sub_sz\<close>. A loop over addresses
  need not terminate when an address wraps, so the loops are partial functions into
  \<^verbatim>\<open>option\<close>. A C \<^verbatim>\<open>int\<close> that carries flag bits is a 32-bit word; \<^verbatim>\<open>(uint64_t)\<close> of it is the
  sign-extending \<^verbatim>\<open>scast\<close>, \<^verbatim>\<open>(int)\<close> of a 64-bit value the truncating \<^verbatim>\<open>ucast\<close>, and \<^verbatim>\<open>(int)\<close> of a
  \<^verbatim>\<open>uint32_t\<close> keeps the 32 bits.

  Modelled from the spec: the flag encodings of sgx_mm.h and the macros MAX and MIN of ema.h
  (here \<^verbatim>\<open>MAX_sz\<close> and \<^verbatim>\<open>MIN_sz\<close>); the headers are not among the sources. The allocation flags and
  the permission and page type bits are distinct bits of the two masks; the values are those
  of the SGX SDK.
\<close>

definition add_sz :: "nat \<Rightarrow> nat \<Rightarrow> nat" where
  "add_sz a b = (a + b) mod 2 ^ 64"

definition sub_sz :: "nat \<Rightarrow> nat \<Rightarrow> nat" where
  "sub_sz a b = (2 ^ 64 + a - b) mod 2 ^ 64"

type_synonym i32 = "32 word"

definition SGX_PAGE_SIZE :: nat where "SGX_PAGE_SIZE = 0x1000"
definition SGX_PAGE_SHIFT :: nat where "SGX_PAGE_SHIFT = 12"

definition SGX_EMA_RESERVE :: u32 where "SGX_EMA_RESERVE = 0x1"
definition SGX_EMA_COMMIT_NOW :: u32 where "SGX_EMA_COMMIT_NOW = 0x2"
definition SGX_EMA_COMMIT_ON_DEMAND :: u32 where "SGX_EMA_COMMIT_ON_DEMAND = 0x4"
definition SGX_EMA_GROWSDOWN :: u32 where "SGX_EMA_GROWSDOWN = 0x10"
definition SGX_EMA_GROWSUP :: u32 where "SGX_EMA_GROWSUP = 0x20"

definition SGX_EMA_PROT_NONE :: i32 where "SGX_EMA_PROT_NONE = 0x0"
definition SGX_EMA_PROT_READ :: i32 where "SGX_EMA_PROT_READ = 0x1"
definition SGX_EMA_PROT_WRITE :: i32 where "SGX_EMA_PROT_WRITE = 0x2"
definition SGX_EMA_PROT_EXEC :: i32 where "SGX_EMA_PROT_EXEC = 0x4"
definition SGX_EMA_PROT_READ_WRITE :: i32 where
  "SGX_EMA_PROT_READ_WRITE = SGX_EMA_PROT_READ OR SGX_EMA_PROT_WRITE"
definition SGX_EMA_PROT_READ_EXEC :: i32 where
  "SGX_EMA_PROT_READ_EXEC = SGX_EMA_PROT_READ OR SGX_EMA_PROT_EXEC"
definition SGX_EMA_PROT_READ_WRITE_EXEC :: i32 where
  "SGX_EMA_PROT_READ_WRITE_EXEC = SGX_EMA_PROT_READ_WRITE OR SGX_EMA_PROT_EXEC"
definition SGX_EMA_PROT_MASK :: i32 where "SGX_EMA_PROT_MASK = 0x7"

definition SGX_EMA_PAGE_TYPE_TCS :: i32 where "SGX_EMA_PAGE_TYPE_TCS = 0x100"
definition SGX_EMA_PAGE_TYPE_REG :: i32 where "SGX_EMA_PAGE_TYPE_REG = 0x200"
definition SGX_EMA_PAGE_TYPE_TRIM :: i32 where "SGX_EMA_PAGE_TYPE_TRIM = 0x400"
definition SGX_EMA_PAGE_TYPE_MASK :: i32 where "SGX_EMA_PAGE_TYPE_MASK = 0xFF00"

definition MAX_sz :: "nat \<Rightarrow> nat \<Rightarrow> nat" where "MAX_sz x y = (if x > y then x else y)"
definition MIN_sz :: "nat \<Rightarrow> nat \<Rightarrow> nat" where "MIN_sz x y = (if x > y then y else x)"

text \<open>The state flags are defined in ema.c itself.\<close>

definition SGX_EMA_STATE_PENDING :: u64 where "SGX_EMA_STATE_PENDING = 0x8"
definition SGX_EMA_STATE_MODIFIED :: u64 where "SGX_EMA_STATE_MODIFIED = 0x10"
definition SGX_EMA_STATE_PR :: u64 where "SGX_EMA_STATE_PR = 0x20"

subsection \<open>Nodes, the runtime abstraction layer and the state\<close>

text \<open>
  \<^verbatim>\<open>struct ema_t_\<close> of ema_imp.h. A pointer to a node is its address, NULL is 0. The bitmap,
  which a node owns, is held by value (\<^verbatim>\<open>None\<close> is the NULL pointer).
\<close>

record ema =
  start_addr :: nat
  ema_size :: nat
  alloc_flags :: u32
  si_flags :: u64
  eaccept_map :: "bit_array option"
  handler :: nat
  priv :: nat
  "next" :: nat
  prev :: nat

text \<open>
  The instruction wrappers and out-calls of the runtime abstraction layer are external. Each
  call is recorded as an event; the value it returns is given by the environment \<^verbatim>\<open>rt\<close>, a
  function of the events so far and of the arguments. The first word of the \<^verbatim>\<open>sec_info_t\<close>
  passed to an instruction stands for the structure.
\<close>

datatype event =
    EACCEPT u64 nat
  | EMODPE u64 nat
  | ALLOC_OCALL nat nat i32 i32
  | MODIFY_OCALL nat nat i32 i32

record rt =
  do_eaccept :: "event list \<Rightarrow> u64 \<Rightarrow> nat \<Rightarrow> int"
  sgx_mm_alloc_ocall :: "event list \<Rightarrow> nat \<Rightarrow> nat \<Rightarrow> i32 \<Rightarrow> i32 \<Rightarrow> int"
  sgx_mm_modify_ocall :: "event list \<Rightarrow> nat \<Rightarrow> nat \<Rightarrow> i32 \<Rightarrow> i32 \<Rightarrow> int"

record emm =
  nodes :: "nat \<Rightarrow> ema"
  heap :: heap
  trace :: "event list"

definition emit :: "emm \<Rightarrow> event \<Rightarrow> emm" where
  "emit s e = s\<lparr>trace := trace s @ [e]\<rparr>"

subsection \<open>The accept bitmap of a node\<close>

definition ema_set_eaccept_full :: "emm \<Rightarrow> nat \<Rightarrow> (int \<times> emm) outcome option" where
  "ema_set_eaccept_full s node =
     (case eaccept_map (nodes s node) of
        None \<Rightarrow>
          bind_res (bit_array_new_set (drop_bit SGX_PAGE_SHIFT (ema_size (nodes s node))) (heap s))
            (\<lambda>(r, h1).
               case r of
                 None \<Rightarrow> Some (Returned (ENOMEM, s\<lparr>heap := h1\<rparr>))
               | Some ba \<Rightarrow>
                   Some (Returned
                     (0, s\<lparr>nodes := (nodes s)(node := (nodes s node)\<lparr>eaccept_map := Some ba\<rparr>),
                           heap := h1\<rparr>)))
      | Some bm \<Rightarrow>
          Some (Returned
            (0, s\<lparr>nodes := (nodes s)(node := (nodes s node)
                      \<lparr>eaccept_map := Some (bit_array_set_all bm)\<rparr>)\<rparr>)))"

definition ema_clear_eaccept_full :: "emm \<Rightarrow> nat \<Rightarrow> (int \<times> emm) outcome option" where
  "ema_clear_eaccept_full s node =
     (case eaccept_map (nodes s node) of
        None \<Rightarrow>
          bind_res (bit_array_new_reset (drop_bit SGX_PAGE_SHIFT (ema_size (nodes s node))) (heap s))
            (\<lambda>(r, h1).
               case r of
                 None \<Rightarrow> Some (Returned (ENOMEM, s\<lparr>heap := h1\<rparr>))
               | Some ba \<Rightarrow>
                   Some (Returned
                     (0, s\<lparr>nodes := (nodes s)(node := (nodes s node)\<lparr>eaccept_map := Some ba\<rparr>),
                           heap := h1\<rparr>)))
      | Some bm \<Rightarrow>
          Some (Returned
            (0, s\<lparr>nodes := (nodes s)(node := (nodes s node)
                      \<lparr>eaccept_map := Some (bit_array_reset_all bm)\<rparr>)\<rparr>)))"

subsection \<open>List primitives and ema_split\<close>

text \<open>insert_ema links \<^verbatim>\<open>new_node\<close> in front of \<^verbatim>\<open>node\<close>: four pointer assignments.\<close>

definition insert_ema :: "(nat \<Rightarrow> ema) \<Rightarrow> nat \<Rightarrow> nat \<Rightarrow> (nat \<Rightarrow> ema)" where
  "insert_ema ns new_node node =
     (let ns1 = ns(new_node := (ns new_node)\<lparr>prev := prev (ns node)\<rparr>);
          ns2 = ns1(new_node := (ns1 new_node)\<lparr>next := node\<rparr>);
          ns3 = ns2(prev (ns2 node) := (ns2 (prev (ns2 node)))\<lparr>next := new_node\<rparr>);
          ns4 = ns3(node := (ns3 node)\<lparr>prev := new_node\<rparr>)
      in ns4)"

text \<open>
  ema_split returns the error code, the node written to \<^verbatim>\<open>*ret_node\<close> (\<^verbatim>\<open>None\<close> when the
  out parameter is not written) and the state. The build is the one of the Makefile (NDEBUG
  set, TEST not set): the two asserts are compiled out, and the callers pass an address inside
  the node. When the bitmap cannot be split, the new node is returned to the heap with efree.
\<close>

definition ema_split ::
  "emm \<Rightarrow> nat \<Rightarrow> nat \<Rightarrow> bool \<Rightarrow> (int \<times> nat option \<times> emm) outcome option" where
  "ema_split s ema addr new_lower =
     (case emalloc_outcome 72 (heap s) of
        (None, h1) \<Rightarrow> Some (Returned (ENOMEM, None, s\<lparr>heap := h1\<rparr>))
      | (Some blk, h1) \<Rightarrow>
          let new_node = addr_of blk in
          bind_res
            (case eaccept_map (nodes s ema) of
               None \<Rightarrow> Some (Returned (0, None, None, h1))
             | Some bm \<Rightarrow>
                 bit_array_split bm
                   (drop_bit SGX_PAGE_SHIFT (sub_sz addr (start_addr (nodes s ema)))) h1)
            (\<lambda>(ret, low, high, h2).
               if ret \<noteq> 0 then
                 bind_res (efree_outcome h2) (\<lambda>h3. Some (Returned (ret, None, s\<lparr>heap := h3\<rparr>)))
               else
                 let ns1 = (nodes s)(new_node := nodes s ema);
                     lo_ema = (if new_lower then new_node else ema);
                     hi_ema = (if new_lower then ema else new_node);
                     ns2 = (if new_lower then insert_ema ns1 new_node ema
                            else insert_ema ns1 new_node (next (ns1 ema)));
                     start = start_addr (ns2 ema);
                     sz = ema_size (ns2 ema);
                     ns3 = ns2(lo_ema := (ns2 lo_ema)\<lparr>start_addr := start\<rparr>);
                     ns4 = ns3(lo_ema := (ns3 lo_ema)\<lparr>ema_size := sub_sz addr start\<rparr>);
                     ns5 = ns4(hi_ema := (ns4 hi_ema)\<lparr>start_addr := addr\<rparr>);
                     ns6 = ns5(hi_ema := (ns5 hi_ema)
                             \<lparr>ema_size := sub_sz sz (ema_size (ns5 lo_ema))\<rparr>);
                     ns7 = (if eaccept_map (ns6 ema) \<noteq> None then
                              let ns' = ns6(lo_ema := (ns6 lo_ema)\<lparr>eaccept_map := low\<rparr>)
                              in ns'(hi_ema := (ns' hi_ema)\<lparr>eaccept_map := high\<rparr>)
                            else ns6)
                 in Some (Returned (0, Some new_node, s\<lparr>nodes := ns7, heap := h2\<rparr>))))"

subsection \<open>Accepting a range, ema_do_alloc\<close>

text \<open>
  eaccept_range_forward is a \<^verbatim>\<open>while\<close> loop, eaccept_range_backward a \<^verbatim>\<open>do ... while\<close> loop
  (its assert is compiled out). A failing \<^verbatim>\<open>do_eaccept\<close> aborts.
\<close>

partial_function (option) eaccept_range_forward ::
  "rt \<Rightarrow> event list \<Rightarrow> u64 \<Rightarrow> nat \<Rightarrow> nat \<Rightarrow> (int \<times> event list) outcome option" where
  "eaccept_range_forward r tr si start end =
     (if start < end then
        (if do_eaccept r tr si start \<noteq> 0 then Some Aborted
         else eaccept_range_forward r (tr @ [EACCEPT si start]) si
                (add_sz start SGX_PAGE_SIZE) end)
      else Some (Returned (0, tr)))"

partial_function (option) eaccept_range_backward ::
  "rt \<Rightarrow> event list \<Rightarrow> u64 \<Rightarrow> nat \<Rightarrow> nat \<Rightarrow> (int \<times> event list) outcome option" where
  "eaccept_range_backward r tr si start end =
     (let end' = sub_sz end SGX_PAGE_SIZE in
      if do_eaccept r tr si end' \<noteq> 0 then Some Aborted
      else if end' > start then eaccept_range_backward r (tr @ [EACCEPT si end']) si start end'
      else Some (Returned (0, tr @ [EACCEPT si end'])))"

definition do_commit ::
  "rt \<Rightarrow> event list \<Rightarrow> nat \<Rightarrow> nat \<Rightarrow> u64 \<Rightarrow> bool \<Rightarrow> (int \<times> event list) outcome option" where
  "do_commit r tr start sz si_fl grow_up =
     (let si = si_fl OR SGX_EMA_STATE_PENDING in
      if grow_up then eaccept_range_backward r tr si start (add_sz start sz)
      else eaccept_range_forward r tr si start (add_sz start sz))"

definition ema_do_alloc :: "rt \<Rightarrow> emm \<Rightarrow> nat \<Rightarrow> (int \<times> emm) outcome option" where
  "ema_do_alloc r s node =
     (let alloc_fl = alloc_flags (nodes s node) in
      if alloc_fl AND SGX_EMA_RESERVE \<noteq> 0 then Some (Returned (0, s))
      else
        let tmp_addr = start_addr (nodes s node);
            sz = ema_size (nodes s node);
            page_type = (ucast (si_flags (nodes s node) AND scast SGX_EMA_PAGE_TYPE_MASK) :: i32);
            ret = sgx_mm_alloc_ocall r (trace s) tmp_addr sz page_type alloc_fl;
            s1 = emit s (ALLOC_OCALL tmp_addr sz page_type alloc_fl)
        in
        if ret \<noteq> 0 then Some (Returned (EFAULT, s1))
        else
          bind_res
            (if alloc_fl AND SGX_EMA_COMMIT_NOW \<noteq> 0
             then do_commit r (trace s1) tmp_addr sz (si_flags (nodes s1 node))
                    (alloc_fl AND SGX_EMA_GROWSDOWN = 0)
             else Some (Returned (0, trace s1)))
            (\<lambda>(ret, tr).
               let s2 = s1\<lparr>trace := tr\<rparr> in
               if ret \<noteq> 0 then Some (Returned (ret, s2))
               else if alloc_fl AND SGX_EMA_COMMIT_NOW \<noteq> 0
               then ema_set_eaccept_full s2 node
               else ema_clear_eaccept_full s2 node))"

subsection \<open>Commit\<close>

text \<open>
  ema_do_commit: \<^verbatim>\<open>commit_pages\<close> is its \<^verbatim>\<open>for\<close> loop over the pages. The assert on the bitmap
  is compiled out; testing a bit of a NULL bitmap is a crash, which the model counts as
  \<^verbatim>\<open>Aborted\<close>.
\<close>

partial_function (option) commit_pages ::
  "rt \<Rightarrow> emm \<Rightarrow> nat \<Rightarrow> u64 \<Rightarrow> nat \<Rightarrow> nat \<Rightarrow> (int \<times> emm) outcome option" where
  "commit_pages r s node si addr real_end =
     (if addr < real_end then
        let pos = drop_bit SGX_PAGE_SHIFT (sub_sz addr (start_addr (nodes s node))) in
        (case eaccept_map (nodes s node) of
           None \<Rightarrow> Some Aborted
         | Some bm \<Rightarrow>
             if \<not> bit_array_test bm pos then
               let ret = do_eaccept r (trace s) si addr;
                   s1 = emit s (EACCEPT si addr)
               in
               if ret \<noteq> 0 then Some (Returned (ret, s1))
               else commit_pages r
                      (s1\<lparr>nodes := (nodes s1)(node := (nodes s1 node)
                             \<lparr>eaccept_map := Some (bit_array_set bm pos)\<rparr>)\<rparr>)
                      node si (add_sz addr SGX_PAGE_SIZE) real_end
             else commit_pages r s node si (add_sz addr SGX_PAGE_SIZE) real_end)
      else Some (Returned (0, s)))"

definition ema_do_commit ::
  "rt \<Rightarrow> emm \<Rightarrow> nat \<Rightarrow> nat \<Rightarrow> nat \<Rightarrow> (int \<times> emm) outcome option" where
  "ema_do_commit r s node start end =
     (let real_start = MAX_sz start (start_addr (nodes s node));
          real_end = MIN_sz end (add_sz (start_addr (nodes s node)) (ema_size (nodes s node)));
          si = scast (SGX_EMA_PAGE_TYPE_REG OR SGX_EMA_PROT_READ_WRITE) OR SGX_EMA_STATE_PENDING
      in commit_pages r s node si real_start real_end)"

text \<open>
  ema_can_commit walks the nodes from \<^verbatim>\<open>first\<close> along \<^verbatim>\<open>next\<close> until it meets \<^verbatim>\<open>last\<close>;
  \<^verbatim>\<open>can_commit_from\<close> is the loop together with the final test. The walk need not end on
  an arbitrary store, so the result is an option.
\<close>

partial_function (option) can_commit_from ::
  "(nat \<Rightarrow> ema) \<Rightarrow> nat \<Rightarrow> nat \<Rightarrow> nat \<Rightarrow> nat \<Rightarrow> int option" where
  "can_commit_from ns cur lastn prev_end end =
     (if cur \<noteq> lastn then
        (if prev_end \<noteq> start_addr (ns cur) then Some EINVAL
         else if si_flags (ns cur) AND scast SGX_EMA_PROT_WRITE = 0 then Some EACCES
         else if si_flags (ns cur) AND scast SGX_EMA_PAGE_TYPE_REG = 0 then Some EACCES
         else if alloc_flags (ns cur) AND SGX_EMA_RESERVE \<noteq> 0 then Some EACCES
         else can_commit_from ns (next (ns cur)) lastn
                (add_sz (start_addr (ns cur)) (ema_size (ns cur))) end)
      else (if prev_end < end then Some EINVAL else Some 0))"

definition ema_can_commit :: "(nat \<Rightarrow> ema) \<Rightarrow> nat \<Rightarrow> nat \<Rightarrow> nat \<Rightarrow> nat \<Rightarrow> int option" where
  "ema_can_commit ns first lastn start end =
     can_commit_from ns first lastn (start_addr (ns first)) end"

text \<open>
  ema_do_commit_loop: the precheck, then \<^verbatim>\<open>do_commit_from\<close>, the loop over the nodes. The
  loop reads \<^verbatim>\<open>curr->next\<close> before it commits the node.
\<close>

partial_function (option) do_commit_from ::
  "rt \<Rightarrow> emm \<Rightarrow> nat \<Rightarrow> nat \<Rightarrow> nat \<Rightarrow> nat \<Rightarrow> (int \<times> emm) outcome option" where
  "do_commit_from r s cur lastn start end =
     (if cur \<noteq> lastn then
        (case ema_do_commit r s cur start end of
           None \<Rightarrow> None
         | Some Aborted \<Rightarrow> Some Aborted
         | Some (Returned (ret, s1)) \<Rightarrow>
             if ret \<noteq> 0 then Some (Returned (ret, s1))
             else do_commit_from r s1 (next (nodes s cur)) lastn start end)
      else Some (Returned (0, s)))"

definition ema_do_commit_loop ::
  "rt \<Rightarrow> emm \<Rightarrow> nat \<Rightarrow> nat \<Rightarrow> nat \<Rightarrow> nat \<Rightarrow> (int \<times> emm) outcome option" where
  "ema_do_commit_loop r s first lastn start end =
     Option.bind (ema_can_commit (nodes s) first lastn start end) (\<lambda>ret.
       if ret \<noteq> 0 then Some (Returned (ret, s))
       else do_commit_from r s first lastn start end)"

subsection \<open>Permission change\<close>

text \<open>
  ema_modify_permissions: \<^verbatim>\<open>perm_pages\<close> is its \<^verbatim>\<open>for\<close> loop over the pages. The value
  returned by \<^verbatim>\<open>do_emodpe\<close> is not used by the code.
\<close>

partial_function (option) perm_pages ::
  "rt \<Rightarrow> emm \<Rightarrow> u64 \<Rightarrow> i32 \<Rightarrow> i32 \<Rightarrow> nat \<Rightarrow> nat \<Rightarrow> (int \<times> emm) outcome option" where
  "perm_pages r s si prot new_prot page real_end =
     (if page < real_end then
        let s1 = (if new_prot OR prot \<noteq> prot then emit s (EMODPE si page) else s) in
        if new_prot AND (SGX_EMA_PROT_WRITE OR SGX_EMA_PROT_EXEC)
             \<noteq> SGX_EMA_PROT_WRITE OR SGX_EMA_PROT_EXEC
        then
          let ret = do_eaccept r (trace s1) si page;
              s2 = emit s1 (EACCEPT si page)
          in
          if ret \<noteq> 0 then Some (Returned (ret, s2))
          else perm_pages r s2 si prot new_prot (add_sz page SGX_PAGE_SIZE) real_end
        else perm_pages r s1 si prot new_prot (add_sz page SGX_PAGE_SIZE) real_end
      else Some (Returned (0, s)))"

text \<open>
  The two conditional splits of ema_modify_permissions: each returns the error code, the
  node to go on with and the state.
\<close>

definition split_if :: "bool \<Rightarrow> emm \<Rightarrow> nat \<Rightarrow> nat \<Rightarrow> bool \<Rightarrow> (int \<times> nat \<times> emm) outcome option" where
  "split_if c s node addr new_lower =
     (if c then
        bind_res (ema_split s node addr new_lower) (\<lambda>(ret, tmp_node, s').
          Some (Returned (ret, (case tmp_node of None \<Rightarrow> 0 | Some t \<Rightarrow> t), s')))
      else Some (Returned (0, node, s)))"

definition ema_modify_permissions ::
  "rt \<Rightarrow> emm \<Rightarrow> nat \<Rightarrow> nat \<Rightarrow> nat \<Rightarrow> i32 \<Rightarrow> (int \<times> emm) outcome option" where
  "ema_modify_permissions r s node start end new_prot =
     (let prot = (ucast (si_flags (nodes s node) AND scast SGX_EMA_PROT_MASK) :: i32);
          type = (ucast (si_flags (nodes s node) AND scast SGX_EMA_PAGE_TYPE_MASK) :: i32)
      in
      if prot = new_prot then Some (Returned (0, s))
      else
        let real_start = MAX_sz start (start_addr (nodes s node));
            real_end = MIN_sz end (add_sz (start_addr (nodes s node)) (ema_size (nodes s node)));
            ret = sgx_mm_modify_ocall r (trace s) real_start (sub_sz real_end real_start)
                    (prot OR type) (new_prot OR type);
            s1 = emit s (MODIFY_OCALL real_start (sub_sz real_end real_start)
                    (prot OR type) (new_prot OR type))
        in
        if ret \<noteq> 0 then Some (Returned (EFAULT, s1))
        else
          let si = scast new_prot OR scast SGX_EMA_PAGE_TYPE_REG OR SGX_EMA_STATE_PR in
          bind_res (perm_pages r s1 si prot new_prot real_start real_end) (\<lambda>(ret, s2).
            if ret \<noteq> 0 then Some (Returned (ret, s2))
            else
              bind_res
                (split_if (real_start > start_addr (nodes s2 node)) s2 node real_start False)
                (\<lambda>(ret, node1, s3).
                   if ret \<noteq> 0 then Some (Returned (ret, s3))
                   else
                     bind_res
                       (split_if
                          (real_end < add_sz (start_addr (nodes s3 node1))
                                             (ema_size (nodes s3 node1)))
                          s3 node1 real_end True)
                       (\<lambda>(ret, node2, s4).
                          if ret \<noteq> 0 then Some (Returned (ret, s4))
                          else
                            let s5 = s4\<lparr>nodes := (nodes s4)(node2 := (nodes s4 node2)
                                        \<lparr>si_flags :=
                                           (si_flags (nodes s4 node2)
                                              AND scast (NOT SGX_EMA_PROT_MASK))
                                           OR scast new_prot\<rparr>)\<rparr>
                            in
                            if new_prot = SGX_EMA_PROT_NONE then
                              let ret = sgx_mm_modify_ocall r (trace s5) real_start
                                          (sub_sz real_end real_start)
                                          (type OR SGX_EMA_PROT_NONE)
                                          (type OR SGX_EMA_PROT_NONE);
                                  s6 = emit s5 (MODIFY_OCALL real_start
                                          (sub_sz real_end real_start)
                                          (type OR SGX_EMA_PROT_NONE)
                                          (type OR SGX_EMA_PROT_NONE))
                              in Some (Returned (if ret \<noteq> 0 then EFAULT else ret, s6))
                            else Some (Returned (ret, s5))))))"

section \<open>Notions used in the statements\<close>

text \<open>
  The byte that the loop of bit_array_split assembles from two neighbouring source bytes
  (\<^verbatim>\<open>u1 | u2\<close>).
\<close>

definition two_bytes :: "(nat \<Rightarrow> u8) \<Rightarrow> nat \<Rightarrow> nat \<Rightarrow> u8" where
  "two_bytes src k c = drop_bit k (src c) OR push_bit (8 - k) (src (c + 1))"

text \<open>
  The buffers that bit_array_split computes at a position \<^verbatim>\<open>pos\<close> strictly inside an array
  of \<^verbatim>\<open>n\<close> bits with buffer \<^verbatim>\<open>src\<close>: the lower buffer is written over a block with contents
  \<^verbatim>\<open>junk\<close>, the higher buffer over the buffer \<^verbatim>\<open>junk\<close> of the new array.
\<close>

definition low_data :: "(nat \<Rightarrow> u8) \<Rightarrow> nat \<Rightarrow> (nat \<Rightarrow> u8) \<Rightarrow> (nat \<Rightarrow> u8)" where
  "low_data src pos junk =
     (let d0 = (\<lambda>j. if j < pos div 8 then src j else junk j)
      in if pos mod 8 > 0
         then d0(pos div 8 := src (pos div 8) AND (push_bit (pos mod 8) 1 - 1))
         else d0)"

definition high_data :: "(nat \<Rightarrow> u8) \<Rightarrow> nat \<Rightarrow> nat \<Rightarrow> (nat \<Rightarrow> u8) \<Rightarrow> (nat \<Rightarrow> u8)" where
  "high_data src pos n junk =
     (let e0 = (\<lambda>j. if j < (n - pos) div 8
                     then two_bytes src (pos mod 8) (pos div 8 + j) else junk j);
          q = (n - pos) div 8
      in if (n - pos) mod 8 > 8 - pos mod 8
         then e0(q := two_bytes src (pos mod 8) (pos div 8 + q))
         else if (n - pos) mod 8 > 0
         then e0(q := drop_bit (pos mod 8) (src (pos div 8 + q)))
         else e0)"

text \<open>
  A state of the internal heap in which the loop of possibly_merge cannot make progress: the
  right neighbour \<^verbatim>\<open>nr\<close> is allocated, is on no free list, and its two payload words, which
  remove_from_list reads as list pointers, are NULL.
\<close>

definition stuck :: "emalloc_state \<Rightarrow> u64 \<Rightarrow> u64 \<Rightarrow> bool" where
  "stuck s b nr =
     (nr \<noteq> 0 \<and> is_alloced s nr \<and> b \<noteq> nr \<and> b \<noteq> nr + 8 \<and> b \<noteq> nr + 16 \<and>
      mem s (nr + 8) = 0 \<and> mem s (nr + 16) = 0 \<and>
      large_block_list s \<noteq> nr \<and> (\<forall>l. exact_block_list s l \<noteq> nr))"

text \<open>Every call of efree that is still to come returns.\<close>

definition frees_return :: "heap \<Rightarrow> bool" where
  "frees_return h = (\<forall>f\<in>set (frees h). f = Free_returns)"

text \<open>The addresses of the \<^verbatim>\<open>n\<close> pages that start at \<^verbatim>\<open>start\<close>, in increasing order.\<close>

definition page_addrs :: "nat \<Rightarrow> nat \<Rightarrow> nat list" where
  "page_addrs start n = map (\<lambda>k. start + k * SGX_PAGE_SIZE) [0..<n]"

text \<open>The events of a result, and the addresses of the EACCEPT instructions among events.\<close>

fun trace_of :: "(int \<times> emm) outcome option \<Rightarrow> event list" where
  "trace_of (Some (Returned (ret, s))) = trace s"
| "trace_of (Some Aborted) = []"
| "trace_of None = []"

fun eaccept_addrs :: "event list \<Rightarrow> nat list" where
  "eaccept_addrs [] = []"
| "eaccept_addrs (EACCEPT si a # es) = a # eaccept_addrs es"
| "eaccept_addrs (e # es) = eaccept_addrs es"

fun is_ocall :: "event \<Rightarrow> bool" where
  "is_ocall (ALLOC_OCALL a b c d) = True"
| "is_ocall (MODIFY_OCALL a b c d) = True"
| "is_ocall e = False"

text \<open>
  \<^verbatim>\<open>ema_seg ns first ps last\<close>: following \<^verbatim>\<open>next\<close> from \<^verbatim>\<open>first\<close> visits exactly the nodes \<^verbatim>\<open>ps\<close>
  and then reaches \<^verbatim>\<open>last\<close>; these are the EMAs that cover a request. \<^verbatim>\<open>contiguous\<close>: each
  of them starts where the one before ends.
\<close>

fun ema_seg :: "(nat \<Rightarrow> ema) \<Rightarrow> nat \<Rightarrow> nat list \<Rightarrow> nat \<Rightarrow> bool" where
  "ema_seg ns first [] lastn = (first = lastn)"
| "ema_seg ns first (p # ps) lastn =
     (first = p \<and> p \<noteq> lastn \<and> ema_seg ns (next (ns p)) ps lastn)"

fun contiguous :: "(nat \<Rightarrow> ema) \<Rightarrow> nat \<Rightarrow> nat list \<Rightarrow> bool" where
  "contiguous ns prev_end [] = True"
| "contiguous ns prev_end (p # ps) =
     (prev_end = start_addr (ns p) \<and>
      contiguous ns (add_sz (start_addr (ns p)) (ema_size (ns p))) ps)"

text \<open>Every page of the node inside the request \<^verbatim>\<open>[start, end)\<close> has its bit set.\<close>

definition all_committed :: "ema \<Rightarrow> nat \<Rightarrow> nat \<Rightarrow> bool" where
  "all_committed e start end =
     (\<exists>bm. eaccept_map e = Some bm \<and>
        (\<forall>addr. MAX_sz start (start_addr e) \<le> addr \<and>
                 addr < MIN_sz end (add_sz (start_addr e) (ema_size e)) \<longrightarrow>
           bit_array_test bm (drop_bit SGX_PAGE_SHIFT (sub_sz addr (start_addr e)))))"

text \<open>The instructions that one iteration of the page loop of ema_modify_permissions issues.\<close>

definition page_events :: "u64 \<Rightarrow> i32 \<Rightarrow> i32 \<Rightarrow> nat \<Rightarrow> event list" where
  "page_events si prot new_prot page =
     (if new_prot OR prot \<noteq> prot then [EMODPE si page] else []) @
     (if new_prot AND (SGX_EMA_PROT_WRITE OR SGX_EMA_PROT_EXEC)
           \<noteq> SGX_EMA_PROT_WRITE OR SGX_EMA_PROT_EXEC
      then [EACCEPT si page] else [])"

section \<open>Concrete inputs\<close>

text \<open>
  A 16-bit array, a heap with three successful allocations to come, and a heap that is out of
  memory.
\<close>

definition ba16 :: bit_array where
  "ba16 = \<lparr>n_bytes = 2, n_bits = 16,
            data = (\<lambda>i. if i = 0 then 0xA5 else if i = 1 then 0x3C else 0xFF)\<rparr>"

definition heap3 :: heap where
  "heap3 = \<lparr>allocs = [Some (Block 64 (\<lambda>_. 0xEE)), Some (Block 96 (\<lambda>_. 0xEE)),
                     Some (Block 128 (\<lambda>_. 0xEE))],
            frees = []\<rparr>"

definition heap0 :: heap where
  "heap0 = \<lparr>allocs = [], frees = []\<rparr>"

text \<open>
  Internal heaps with one reserve that holds three blocks A, B and C of which A is allocated
  and is the block to free. In \<^verbatim>\<open>heap_high\<close> the reserve lies at a typical enclave address
  and B is free (the only block on the large list). \<^verbatim>\<open>heap_low_free\<close> is the same situation in a
  256 KiB reserve at a low address. In \<^verbatim>\<open>heap_low\<close> the reserve lies at the low address and B is
  allocated.
\<close>

definition heap_high :: emalloc_state where
  "heap_high =
     \<lparr>mem = (\<lambda>_. 0)(0x7F0000018020 := 0x1001, 0x7F0000019020 := 0x1000,
                   0x7F000001A020 := 0x1001),
      exact_block_list = (\<lambda>_. 0),
      large_block_list = 0x7F0000019020,
      reserve_list = [\<lparr>base = 0x7F0000018020, rsize = 0xFFE0, used = 0x3000\<rparr>],
      adding_reserve = False,
      meta_reserve = 0x7F0000600000\<rparr>"

definition heap_low_free :: emalloc_state where
  "heap_low_free =
     \<lparr>mem = (\<lambda>_. 0)(0x18020 := 0x1001, 0x19020 := 0x1000, 0x1A020 := 0x1E001),
      exact_block_list = (\<lambda>_. 0),
      large_block_list = 0x19020,
      reserve_list = [\<lparr>base = 0x18020, rsize = 0x3FFE0, used = 0x20000\<rparr>],
      adding_reserve = False,
      meta_reserve = 0x600000\<rparr>"

definition heap_low :: emalloc_state where
  "heap_low =
     \<lparr>mem = (\<lambda>_. 0)(0x18020 := 0x1001, 0x19020 := 0x1001, 0x1A020 := 0x1E001),
      exact_block_list = (\<lambda>_. 0),
      large_block_list = 0,
      reserve_list = [\<lparr>base = 0x18020, rsize = 0x3FFE0, used = 0x20000\<rparr>],
      adding_reserve = False,
      meta_reserve = 0x600000\<rparr>"

text \<open>
  A runtime in which every instruction and out-call succeeds, and EMA stores with one node at
  address \<^verbatim>\<open>0x5000\<close> on a root whose guard is at address \<^verbatim>\<open>0x100\<close>.
\<close>

definition rt_ok :: rt where
  "rt_ok = \<lparr>do_eaccept = (\<lambda>tr si a. 0),
            sgx_mm_alloc_ocall = (\<lambda>tr a z t f. 0),
            sgx_mm_modify_ocall = (\<lambda>tr a z f t. 0)\<rparr>"

definition guard_ema :: ema where
  "guard_ema = \<lparr>start_addr = 0, ema_size = 0, alloc_flags = 0, si_flags = 0,
                eaccept_map = None, handler = 0, priv = 0, next = 0x5000, prev = 0x5000\<rparr>"

definition one_node :: "ema \<Rightarrow> heap \<Rightarrow> emm" where
  "one_node e h =
     \<lparr>nodes = (\<lambda>_. guard_ema)(0x5000 := e\<lparr>next := 0x100, prev := 0x100\<rparr>),
      heap = h, trace = []\<rparr>"

definition blocks :: heap where
  "blocks = \<lparr>allocs = [Some (Block 0x6000 (\<lambda>_. 0)), Some (Block 0x6100 (\<lambda>_. 0)),
                      Some (Block 0x6200 (\<lambda>_. 0)), Some (Block 0x6300 (\<lambda>_. 0))],
             frees = []\<rparr>"


text \<open>A four-page grow-down region to be committed at allocation.\<close>

definition stack_ema :: ema where
  "stack_ema = guard_ema\<lparr>start_addr := 0x10000, ema_size := 0x4000,
                 alloc_flags := SGX_EMA_COMMIT_NOW OR SGX_EMA_GROWSDOWN, si_flags := 0x203\<rparr>"

text \<open>A reserved region of sixteen pages.\<close>

definition reserved_ema :: ema where
  "reserved_ema = guard_ema\<lparr>start_addr := 0x20000, ema_size := 0x10000,
                    alloc_flags := SGX_EMA_RESERVE, si_flags := 0x203\<rparr>"

text \<open>A readable and writable region of four pages, all of them committed.\<close>

definition committed_ema :: ema where
  "committed_ema = guard_ema\<lparr>start_addr := 0x20000, ema_size := 0x4000,
                     alloc_flags := SGX_EMA_COMMIT_ON_DEMAND, si_flags := 0x203,
                     eaccept_map := Some \<lparr>n_bytes = 1, n_bits = 4, data = (\<lambda>_. 0xFF)\<rparr>\<rparr>"

section \<open>Bit array: properties\<close>

subsection \<open>Rounding\<close>

lemma and_not_7: "(w :: u64) AND NOT 7 = push_bit 3 (drop_bit 3 w)"
proof -
  have "(7 :: u64) = mask 3" by (simp add: mask_eq_exp_minus_1)
  then show ?thesis
    by (simp add: bit_eq_iff bit_simps) auto
qed

lemma ROUND_TO_unfold: "ROUND_TO n 8 = ((n + 7) mod 2 ^ 64) div 8 * 8"
proof -
  have a: "(word_of_nat n :: u64) + (word_of_nat 8 - 1) = word_of_nat (n + 7)" by simp
  have b: "unat (word_of_nat (n + 7) :: u64) = (n + 7) mod 2 ^ 64"
    by (simp only: unat_of_nat) simp
  have c: "unat (push_bit 3 (drop_bit 3 (word_of_nat (n + 7) :: u64)))
             = ((n + 7) mod 2 ^ 64) div 8 * 8"
  proof -
    have "((n + 7) mod 2 ^ 64) div 8 * 8 \<le> (n + 7) mod 2 ^ 64" by simp
    also have "\<dots> < 2 ^ 64" by simp
    finally have lt: "((n + 7) mod 2 ^ 64) div 8 * 8 < 2 ^ 64" .
    show ?thesis
      apply (simp only: unsigned_push_bit_eq unat_drop_bit_eq b)
      using lt apply (simp add: drop_bit_eq_div push_bit_eq_mult take_bit_eq_mod)
      done
  qed
  show ?thesis
    unfolding ROUND_TO_def a using c and_not_7 by simp
qed

lemma ROUND_TO_8_overflow:
  assumes "n < 2 ^ 64" "2 ^ 64 \<le> n + 7"
  shows "ROUND_TO n 8 < n"
proof -
  have "(n + 7) mod 2 ^ 64 = n + 7 - 2 ^ 64"
    using assms by (simp add: mod_if)
  then have "(n + 7) mod 2 ^ 64 < 8" using assms by simp
  then have "((n + 7) mod 2 ^ 64) div 8 * 8 = 0" by simp
  then show ?thesis using assms by (simp add: ROUND_TO_unfold)
qed

lemma ROUND_TO_8_ge:
  assumes "n + 7 < 2 ^ 64"
  shows "n \<le> ROUND_TO n 8"
proof -
  have "n + 7 = (n + 7) div 8 * 8 + (n + 7) mod 8" by simp
  moreover have "(n + 7) mod 8 \<le> 7" by simp
  ultimately have "n \<le> (n + 7) div 8 * 8" by linarith
  then show ?thesis using assms by (simp add: ROUND_TO_unfold)
qed

lemma TEST_BIT_iff: "TEST_BIT A p = bit (A (p div 8)) (p mod 8)"
  by (simp add: TEST_BIT_def bit_iff_and_push_bit_not_eq_0)

subsection \<open>The outcomes of the heap\<close>

lemma bind_res_simps [simp]:
  "bind_res None f = None"
  "bind_res (Some Aborted) f = Some Aborted"
  "bind_res (Some (Returned x)) f = f x"
  by (simp_all add: bind_res_def)

lemma bind_res_Returned:
  "bind_res m f = Some (Returned y) \<longleftrightarrow> (\<exists>x. m = Some (Returned x) \<and> f x = Some (Returned y))"
  by (auto simp: bind_res_def split: option.splits outcome.splits)

lemma emalloc_outcome_Cons:
  "allocs h = r # rs \<Longrightarrow> emalloc_outcome sz h = (r, h\<lparr>allocs := rs\<rparr>)"
  by (simp add: emalloc_outcome_def)

lemma emalloc_outcome_Nil:
  "allocs h = [] \<Longrightarrow> emalloc_outcome sz h = (None, h)"
  by (simp add: emalloc_outcome_def)

lemma emalloc_outcome_frees:
  "emalloc_outcome sz h = (r, h') \<Longrightarrow> frees h' = frees h"
  by (auto simp: emalloc_outcome_def split: list.splits)

lemma efree_outcome_ok:
  assumes "frees h = [] \<or> hd (frees h) = Free_returns"
  shows "efree_outcome h = Some (Returned (h\<lparr>frees := tl (frees h)\<rparr>))"
  using assms
  by (cases "frees h") (auto simp: efree_outcome_def split: free_outcome.splits)

lemma efree_outcome_Returned:
  assumes "efree_outcome h = Some (Returned h')"
  shows "h' = h\<lparr>frees := tl (frees h)\<rparr>" "frees h = [] \<or> hd (frees h) = Free_returns"
  using assms
  by (cases "frees h"; auto simp: efree_outcome_def split: free_outcome.splits)+

subsection \<open>Creation\<close>

lemma bit_array_new_Some:
  assumes "bit_array_new n h = Some (Returned (Some ba, h'))"
  shows "n_bits ba = n" "n \<noteq> 0"
  using assms
  by (auto simp: bit_array_new_def Let_def bind_res_Returned
        split: if_splits prod.splits option.splits)

lemma bit_array_new_ok:
  assumes "n \<noteq> 0" "n + 7 < 2 ^ 64" "allocs h = Some a # Some d # rest"
  shows "bit_array_new n h =
           Some (Returned (Some \<lparr>n_bytes = NUM_OF_BYTES n, n_bits = n, data = bytes_of d\<rparr>,
                           h\<lparr>allocs := rest\<rparr>))"
proof -
  have "\<not> ROUND_TO n 8 < n" using ROUND_TO_8_ge[OF assms(2)] by simp
  then show ?thesis
    using assms(1,3) by (simp add: bit_array_new_def Let_def emalloc_outcome_def)
qed

text \<open>
  Claim C10. bit_array_new returns NULL for zero bits, before any call of emalloc or efree
  (the heap is as it was), and it does the same when rounding the number of bits up to a
  multiple of 8 overflows \<^verbatim>\<open>size_t\<close>. Hence bit_array_new_set and bit_array_new_reset return
  NULL for zero bits, and an array that one of the three creates tracks the requested,
  non-zero number of bits.
\<close>

theorem bit_array_new_rejects_zero_bits:
  "bit_array_new 0 h = Some (Returned (None, h)) \<and>
   (n < 2 ^ 64 \<and> 2 ^ 64 \<le> n + 7 \<longrightarrow> bit_array_new n h = Some (Returned (None, h))) \<and>
   bit_array_new_set 0 h = Some (Returned (None, h)) \<and>
   bit_array_new_reset 0 h = Some (Returned (None, h)) \<and>
   (\<forall>ba h'. bit_array_new n h = Some (Returned (Some ba, h')) \<or>
       bit_array_new_set n h = Some (Returned (Some ba, h')) \<or>
       bit_array_new_reset n h = Some (Returned (Some ba, h')) \<longrightarrow> n_bits ba = n \<and> n \<noteq> 0)"
proof (intro conjI allI impI)
  show "bit_array_new 0 h = Some (Returned (None, h))" by (simp add: bit_array_new_def)
  then show "bit_array_new_set 0 h = Some (Returned (None, h))"
    "bit_array_new_reset 0 h = Some (Returned (None, h))"
    by (simp_all add: bit_array_new_set_def bit_array_new_reset_def)
next
  assume "n < 2 ^ 64 \<and> 2 ^ 64 \<le> n + 7"
  then have "ROUND_TO n 8 < n" by (simp add: ROUND_TO_8_overflow)
  then show "bit_array_new n h = Some (Returned (None, h))" by (simp add: bit_array_new_def)
next
  fix ba h'
  assume a: "bit_array_new n h = Some (Returned (Some ba, h')) \<or>
       bit_array_new_set n h = Some (Returned (Some ba, h')) \<or>
       bit_array_new_reset n h = Some (Returned (Some ba, h'))"
  then obtain b where "bit_array_new n h = Some (Returned (Some b, h'))" "n_bits ba = n_bits b"
    by (auto simp: bit_array_new_set_def bit_array_new_reset_def bind_res_Returned
          split: prod.splits option.splits)
  then show "n_bits ba = n" "n \<noteq> 0" using bit_array_new_Some by auto
qed

text \<open>
  Witness for C10: the largest \<^verbatim>\<open>size_t\<close> overflows the rounding and is rejected with the
  heap untouched; sixteen bits give an array of two bytes, all bits set.
\<close>

theorem bit_array_new_rejects_zero_bits_witness:
  "(2 ^ 64 - 1 < (2 ^ 64 :: nat) \<and> (2 ^ 64 :: nat) \<le> 2 ^ 64 - 1 + 7) \<and>
   bit_array_new (2 ^ 64 - 1) heap3 = Some (Returned (None, heap3)) \<and>
   bit_array_new_set 16 heap3
     = Some (Returned (Some \<lparr>n_bytes = 2, n_bits = 16, data = memset (\<lambda>_. 0xEE) 0xFF 2\<rparr>,
                       \<lparr>allocs = [Some (Block 128 (\<lambda>_. 0xEE))], frees = []\<rparr>))"
  using bit_array_new_rejects_zero_bits [of heap3 "2 ^ 64 - 1"]
  by (simp add: bit_array_new_set_def bit_array_new_def NUM_OF_BYTES_def ROUND_TO_def
        emalloc_outcome_def heap3_def)

subsection \<open>Split\<close>

lemma copy_low_eq:
  "copy_low src b i dst = ((\<lambda>j. if i \<le> j \<and> j < b then src j else dst j), max i b)"
proof (induction src b i dst rule: copy_low.induct)
  case (1 src b i dst)
  show ?case
  proof (cases "i < b")
    case True
    have "copy_low src b i dst = copy_low src b (i + 1) (dst(i := src i))"
      by (subst copy_low.simps) (simp add: True)
    also have "\<dots> = ((\<lambda>j. if i + 1 \<le> j \<and> j < b then src j else (dst(i := src i)) j),
                        max (i + 1) b)"
      by (rule 1[OF True])
    also have "\<dots> = ((\<lambda>j. if i \<le> j \<and> j < b then src j else dst j), max i b)"
      using True by (auto simp: fun_eq_iff)
    finally show ?thesis .
  next
    case False
    then show ?thesis
      by (subst copy_low.simps) (auto simp: fun_eq_iff)
  qed
qed

lemma shift_high_eq:
  "shift_high src k r c d dst =
     (r mod 8, c + r div 8, d + r div 8,
      (\<lambda>j. if d \<le> j \<and> j < d + r div 8 then two_bytes src k (c + (j - d)) else dst j))"
proof (induction src k r c d dst rule: shift_high.induct)
  case (1 src k r c d dst)
  show ?case
  proof (cases "8 \<le> r")
    case True
    then have r: "r div 8 = Suc ((r - 8) div 8)" "r mod 8 = (r - 8) mod 8"
      by (simp_all add: le_div_geq le_mod_geq)
    let ?dst = "dst(d := two_bytes src k c)"
    have "shift_high src k r c d dst = shift_high src k (r - 8) (c + 1) (d + 1) ?dst"
      by (subst shift_high.simps) (simp add: True Let_def two_bytes_def)
    also have "\<dots> = ((r - 8) mod 8, c + 1 + (r - 8) div 8, d + 1 + (r - 8) div 8,
        (\<lambda>j. if d + 1 \<le> j \<and> j < d + 1 + (r - 8) div 8
              then two_bytes src k (c + 1 + (j - (d + 1))) else ?dst j))"
      using 1[OF True refl refl] unfolding two_bytes_def .
    also have "\<dots> = (r mod 8, c + r div 8, d + r div 8,
      (\<lambda>j. if d \<le> j \<and> j < d + r div 8 then two_bytes src k (c + (j - d)) else dst j))"
      by (auto simp: fun_eq_iff r intro!: arg_cong[where f = "two_bytes src k"])
    finally show ?thesis .
  next
    case False
    then show ?thesis
      by (subst shift_high.simps) (auto simp: fun_eq_iff)
  qed
qed

lemma shift_high_eq0:
  "shift_high src k r c 0 dst =
     (r mod 8, c + r div 8, r div 8,
      (\<lambda>j. if j < r div 8 then two_bytes src k (c + j) else dst j))"
  by (simp add: shift_high_eq cong: if_cong)

lemma copy_low_eq0:
  "copy_low src b 0 dst = ((\<lambda>j. if j < b then src j else dst j), b)"
  by (simp add: copy_low_eq cong: if_cong)

lemma bit_two_bytes:
  assumes "k < 8" "m < 8"
  shows "bit (two_bytes src k c) m =
           (if m + k < 8 then bit (src c) (m + k) else bit (src (c + 1)) (m + k - 8))"
  using assms
  by (auto simp: two_bytes_def bit_simps add.commute dest: bit_imp_le_length)

lemma bit_drop_only:
  assumes "m + k < 8"
  shows "bit (drop_bit k (a :: u8)) m = bit a (m + k)"
  by (simp add: bit_simps add.commute)

lemma bit_and_mask_u8:
  "bit ((a :: u8) AND (2 ^ k - 1)) m = (bit a m \<and> m < k)"
proof -
  have "(2 ^ k - 1 :: u8) = mask k" by (simp add: mask_eq_exp_minus_1)
  then show ?thesis by (auto simp: bit_simps dest: bit_imp_le_length)
qed

lemma l_bits_eq: "push_bit 3 (pos div 8) + pos mod 8 = (pos :: nat)"
  by (simp add: push_bit_eq_mult)

lemma pos_arith:
  fixes b k j m :: nat
  assumes "k < 8" "m < 8"
  shows "(8 * b + k + (8 * j + m)) div 8 = (if m + k < 8 then b + j else b + j + 1)"
    and "(8 * b + k + (8 * j + m)) mod 8 = (if m + k < 8 then m + k else m + k - 8)"
  using assms by (auto simp: div_nat_eqI mod_nat_eqI)

lemma div_mod_lt:
  fixes i pos :: nat
  assumes "i < pos" "\<not> i div 8 < pos div 8"
  shows "i div 8 = pos div 8" "i mod 8 < pos mod 8"
proof -
  have "i div 8 \<le> pos div 8" using assms(1) by (simp add: div_le_mono)
  then show e: "i div 8 = pos div 8" using assms(2) by simp
  have "i = 8 * (i div 8) + i mod 8" "pos = 8 * (pos div 8) + pos mod 8" by simp_all
  then show "i mod 8 < pos mod 8" using assms(1) e by linarith
qed

lemma low_bits:
  fixes src junk :: "nat \<Rightarrow> u8" and pos :: nat
  defines "d0 \<equiv> (\<lambda>j. if j < pos div 8 then src j else junk j)"
  defines "d1 \<equiv> (if pos mod 8 > 0
                then d0(pos div 8 := src (pos div 8) AND (push_bit (pos mod 8) 1 - 1))
                else d0)"
  assumes lt: "i < pos"
  shows "TEST_BIT d1 i = TEST_BIT src i"
proof (cases "i div 8 < pos div 8")
  case True
  then show ?thesis by (simp add: TEST_BIT_iff d1_def d0_def)
next
  case False
  note div_mod_lt[OF lt False]
  then show ?thesis by (simp add: TEST_BIT_iff d1_def d0_def bit_and_mask_u8)
qed

lemma high_bits:
  fixes src junk :: "nat \<Rightarrow> u8" and pos n :: nat
  defines "k \<equiv> pos mod 8" and "b \<equiv> pos div 8"
  defines "q \<equiv> (n - pos) div 8" and "r \<equiv> (n - pos) mod 8"
  defines "e0 \<equiv> (\<lambda>j. if j < q then two_bytes src k (b + j) else junk j)"
  defines "e1 \<equiv> (if r > 8 - k then e0(q := two_bytes src k (b + q))
                   else if r > 0 then e0(q := drop_bit k (src (b + q)))
                   else e0)"
  assumes lt: "i < n - pos"
  shows "TEST_BIT e1 i = TEST_BIT src (pos + i)"
proof -
  define j m where "j = i div 8" and "m = i mod 8"
  have k8: "k < 8" and m8: "m < 8" by (simp_all add: k_def m_def)
  have pos: "pos = 8 * b + k" and i: "i = 8 * j + m"
    by (simp_all add: k_def b_def j_def m_def)
  have "TEST_BIT src (pos + i) =
          bit (src ((8 * b + k + (8 * j + m)) div 8)) ((8 * b + k + (8 * j + m)) mod 8)"
    unfolding TEST_BIT_iff using pos i by simp
  then have rhs: "TEST_BIT src (pos + i) =
      (if m + k < 8 then bit (src (b + j)) (m + k) else bit (src (b + j + 1)) (m + k - 8))"
    unfolding pos_arith[OF k8 m8] by (simp split: if_splits)
  have lhs: "TEST_BIT e1 i = bit (e1 j) m"
    by (simp add: TEST_BIT_iff j_def m_def)
  have jq: "j \<le> q" using lt by (simp add: j_def q_def div_le_mono)
  show ?thesis
  proof (cases "j < q")
    case True
    then have "e1 j = two_bytes src k (b + j)" by (simp add: e1_def e0_def)
    then show ?thesis
      unfolding rhs lhs by (simp only: bit_two_bytes[OF k8 m8])
  next
    case False
    with jq have jq': "j = q" by simp
    have "i = 8 * q + m" using i jq' by simp
    moreover have "n - pos = 8 * q + r" by (simp add: q_def r_def)
    ultimately have mr: "m < r" using lt by simp
    show ?thesis
    proof (cases "r > 8 - k")
      case True
      then have "e1 j = two_bytes src k (b + j)" by (simp add: e1_def jq')
      then show ?thesis
        unfolding rhs lhs by (simp only: bit_two_bytes[OF k8 m8])
    next
      case False
      with mr have e: "e1 j = drop_bit k (src (b + j))" and mk: "m + k < 8"
        by (auto simp: e1_def jq')
      show ?thesis
        unfolding rhs lhs e using mk by (simp add: bit_drop_only)
    qed
  qed
qed

lemma low_data_bits:
  assumes "i < pos"
  shows "TEST_BIT (low_data src pos junk) i = TEST_BIT src i"
  unfolding low_data_def Let_def using low_bits[OF assms] .

lemma high_data_bits:
  assumes "i < n - pos"
  shows "TEST_BIT (high_data src pos n junk) i = TEST_BIT src (pos + i)"
  unfolding high_data_def Let_def using high_bits[OF assms] .

text \<open>
  An interior split, with the loops replaced by their results.
\<close>

lemma bit_array_split_unfold:
  assumes "0 < pos" "pos < n_bits ba"
  shows "bit_array_split ba pos h =
     (case emalloc_outcome (NUM_OF_BYTES pos) h of
        (None, h1) \<Rightarrow> Some (Returned (ENOMEM, None, None, h1))
      | (Some d, h1) \<Rightarrow>
          bind_res (bit_array_new (n_bits ba - pos) h1) (\<lambda>(new_ba, h2).
            case new_ba of
              None \<Rightarrow> bind_res (efree_outcome h2) (\<lambda>h3. Some (Returned (ENOMEM, None, None, h3)))
            | Some ba2 \<Rightarrow>
                bind_res (bit_array_reattach ba pos (low_data (data ba) pos (bytes_of d)) h2)
                  (\<lambda>(lower, h3).
                     Some (Returned (0, Some lower,
                        Some (ba2\<lparr>data := high_data (data ba) pos (n_bits ba) (data ba2)\<rparr>),
                        h3)))))"
proof -
  have l: "(let (d0, i) = copy_low (data ba) (pos div 8) 0 junk;
       d1 = (if pos mod 8 > 0 then d0(i := data ba i AND (push_bit (pos mod 8) 1 - 1)) else d0)
       in f d1) = f (low_data (data ba) pos junk)" for junk and f :: "(nat \<Rightarrow> u8) \<Rightarrow> 'b"
    by (simp add: copy_low_eq0 low_data_def Let_def)
  have u: "(let (bits_remain, curr_byte, dst_byte, e0) =
          shift_high (data ba) (pos mod 8) (n_bits ba - pos) (pos div 8) 0 junk;
        e1 = (if bits_remain > 8 - pos mod 8 then
         e0(dst_byte := drop_bit (pos mod 8) (data ba curr_byte)
              OR push_bit (8 - pos mod 8) (data ba (curr_byte + 1)))
       else if bits_remain > 0 then e0(dst_byte := drop_bit (pos mod 8) (data ba curr_byte))
       else e0) in g e1)
   = g (high_data (data ba) pos (n_bits ba) junk)" for junk and g :: "(nat \<Rightarrow> u8) \<Rightarrow> 'c"
    by (simp add: shift_high_eq0 high_data_def Let_def two_bytes_def)
  show ?thesis
    using assms
    unfolding bit_array_split_def l_bits_eq Let_def[of "pos div 8"] Let_def[of "pos mod 8"]
      Let_def[of pos] Let_def[of "NUM_OF_BYTES pos"] Let_def[of "n_bits ba - pos"] l u
    by (simp split: prod.splits option.splits)
qed

text \<open>
  Every way in which an interior split returns: the first allocation fails; the creation of
  the higher array fails and the buffer of the lower part is freed; or both succeed, the old
  buffer is freed and the two arrays are handed out.
\<close>

lemma bit_array_split_inside:
  assumes "0 < pos" "pos < n_bits ba"
    and r: "bit_array_split ba pos h = Some (Returned (ret, lo, hi, h'))"
  shows "(emalloc_outcome (NUM_OF_BYTES pos) h = (None, h') \<and>
            ret = ENOMEM \<and> lo = None \<and> hi = None) \<or>
         (\<exists>d h1 h2. emalloc_outcome (NUM_OF_BYTES pos) h = (Some d, h1) \<and>
            bit_array_new (n_bits ba - pos) h1 = Some (Returned (None, h2)) \<and>
            efree_outcome h2 = Some (Returned h') \<and>
            ret = ENOMEM \<and> lo = None \<and> hi = None) \<or>
         (\<exists>d h1 b h2. emalloc_outcome (NUM_OF_BYTES pos) h = (Some d, h1) \<and>
            bit_array_new (n_bits ba - pos) h1 = Some (Returned (Some b, h2)) \<and>
            efree_outcome h2 = Some (Returned h') \<and> ret = 0 \<and>
            lo = Some (ba\<lparr>n_bytes := NUM_OF_BYTES pos, n_bits := pos,
                         data := low_data (data ba) pos (bytes_of d)\<rparr>) \<and>
            hi = Some (b\<lparr>data := high_data (data ba) pos (n_bits ba) (data b)\<rparr>))"
  using r unfolding bit_array_split_unfold[OF assms(1,2)]
  by (auto simp: bind_res_Returned bit_array_reattach_def
        split: prod.splits option.splits)

lemma bit_array_split_succeeds:
  assumes "0 < pos" "pos < n_bits ba" "n_bits ba + 7 < 2 ^ 64"
    and al: "allocs h = Some d # Some a # Some b # rest"
    and fr: "frees h = [] \<or> hd (frees h) = Free_returns"
  shows "bit_array_split ba pos h =
           Some (Returned (0,
             Some (ba\<lparr>n_bytes := NUM_OF_BYTES pos, n_bits := pos,
                      data := low_data (data ba) pos (bytes_of d)\<rparr>),
             Some \<lparr>n_bytes = NUM_OF_BYTES (n_bits ba - pos), n_bits = n_bits ba - pos,
                   data = high_data (data ba) pos (n_bits ba) (bytes_of b)\<rparr>,
             h\<lparr>allocs := rest, frees := tl (frees h)\<rparr>))"
proof -
  let ?h1 = "h\<lparr>allocs := Some a # Some b # rest\<rparr>"
  have e: "emalloc_outcome (NUM_OF_BYTES pos) h = (Some d, ?h1)"
    using al by (simp add: emalloc_outcome_def)
  have n: "bit_array_new (n_bits ba - pos) ?h1 =
             Some (Returned (Some \<lparr>n_bytes = NUM_OF_BYTES (n_bits ba - pos),
                       n_bits = n_bits ba - pos, data = bytes_of b\<rparr>, ?h1\<lparr>allocs := rest\<rparr>))"
    by (rule bit_array_new_ok) (use assms(2,3) in simp_all)
  have f: "efree_outcome (?h1\<lparr>allocs := rest\<rparr>)
             = Some (Returned (h\<lparr>allocs := rest, frees := tl (frees h)\<rparr>))"
    using efree_outcome_ok[of "?h1\<lparr>allocs := rest\<rparr>"] fr by simp
  show ?thesis
    unfolding bit_array_split_unfold[OF assms(1,2)]
    using f by (simp add: e n bit_array_reattach_def)
qed

lemma bit_array_split_efree_fails:
  assumes "0 < pos" "pos < n_bits ba" "n_bits ba + 7 < 2 ^ 64"
    and al: "allocs h = Some d # Some a # Some b # rest"
    and fr: "frees h = f # fs" "f \<noteq> Free_returns"
  shows "bit_array_split ba pos h = (if f = Free_aborts then Some Aborted else None)"
proof -
  let ?h1 = "h\<lparr>allocs := Some a # Some b # rest\<rparr>"
  have e: "emalloc_outcome (NUM_OF_BYTES pos) h = (Some d, ?h1)"
    using al by (simp add: emalloc_outcome_def)
  have n: "bit_array_new (n_bits ba - pos) ?h1 =
             Some (Returned (Some \<lparr>n_bytes = NUM_OF_BYTES (n_bits ba - pos),
                       n_bits = n_bits ba - pos, data = bytes_of b\<rparr>, ?h1\<lparr>allocs := rest\<rparr>))"
    by (rule bit_array_new_ok) (use assms(2,3) in simp_all)
  have f: "efree_outcome (?h1\<lparr>allocs := rest\<rparr>) = (if f = Free_aborts then Some Aborted else None)"
    using fr by (cases f) (simp_all add: efree_outcome_def)
  show ?thesis
    unfolding bit_array_split_unfold[OF assms(1,2)]
    using f by (simp add: e n bit_array_reattach_def)
qed

text \<open>
  Claim C5. bit_array_split at position 0 returns (NULL, ba), and at a position at or beyond
  \<^verbatim>\<open>n_bits\<close> it returns (ba, NULL), leaving the array and the heap as they are and calling
  neither emalloc nor efree. At a position strictly inside:

  \<^item> a split that returns 0 gives a lower array of \<^verbatim>\<open>pos\<close> bits whose bits are the bits
    \<^verbatim>\<open>[0, pos)\<close> of the original, and a higher array of \<^verbatim>\<open>n_bits - pos\<close> bits whose bit \<^verbatim>\<open>i\<close>
    is bit \<^verbatim>\<open>pos + i\<close> of the original; the higher array is the one that bit_array_new
    created in the heap that the allocation of the lower buffer left, and the final heap is
    the one left by the efree of the old buffer;
  \<^item> the split returns 0 whenever the three allocations succeed, the efree of the old buffer
    returns and rounding \<^verbatim>\<open>n_bits\<close> up does not overflow (which holds of every array that
    bit_array_new made): the three allocations and one outcome of efree are consumed;
  \<^item> with the same allocations, when the efree of the old buffer aborts the split aborts, and
    when that efree does not return the split does not return;
  \<^item> a split that returns anything else returns ENOMEM and hands out no array.
\<close>

theorem bit_array_split_correct:
  "bit_array_split ba 0 h = Some (Returned (0, None, Some ba, h)) \<and>
   (0 < pos \<and> n_bits ba \<le> pos \<longrightarrow>
      bit_array_split ba pos h = Some (Returned (0, Some ba, None, h))) \<and>
   (0 < pos \<and> pos < n_bits ba \<and> bit_array_split ba pos h = Some (Returned (0, lo, hi, h')) \<longrightarrow>
      (\<exists>l u. lo = Some l \<and> hi = Some u \<and>
         n_bits l = pos \<and> (\<forall>i<pos. bit_array_test l i = bit_array_test ba i) \<and>
         n_bits u = n_bits ba - pos \<and>
         (\<forall>i<n_bits ba - pos. bit_array_test u i = bit_array_test ba (pos + i)) \<and>
         (\<exists>d1 h1 b1 h2. emalloc_outcome (NUM_OF_BYTES pos) h = (Some d1, h1) \<and>
            bit_array_new (n_bits ba - pos) h1 = Some (Returned (Some b1, h2)) \<and>
            efree_outcome h2 = Some (Returned h') \<and> u = b1\<lparr>data := data u\<rparr>))) \<and>
   (0 < pos \<and> pos < n_bits ba \<and> n_bits ba + 7 < 2 ^ 64 \<and>
    allocs h = Some d # Some a # Some b # rest \<and>
    (frees h = [] \<or> hd (frees h) = Free_returns) \<longrightarrow>
      (\<exists>l u. bit_array_split ba pos h =
                Some (Returned (0, Some l, Some u, h\<lparr>allocs := rest, frees := tl (frees h)\<rparr>)) \<and>
         n_bits l = pos \<and> (\<forall>i<pos. bit_array_test l i = bit_array_test ba i) \<and>
         n_bits u = n_bits ba - pos \<and>
         (\<forall>i<n_bits ba - pos. bit_array_test u i = bit_array_test ba (pos + i)))) \<and>
   (0 < pos \<and> pos < n_bits ba \<and> n_bits ba + 7 < 2 ^ 64 \<and>
    allocs h = Some d # Some a # Some b # rest \<and> frees h = f # fs \<and> f \<noteq> Free_returns \<longrightarrow>
      bit_array_split ba pos h = (if f = Free_aborts then Some Aborted else None)) \<and>
   (0 < pos \<and> pos < n_bits ba \<and> ret \<noteq> 0 \<and>
    bit_array_split ba pos h = Some (Returned (ret, lo, hi, h')) \<longrightarrow>
      ret = ENOMEM \<and> lo = None \<and> hi = None)"
proof -
  have c1: "bit_array_split ba 0 h = Some (Returned (0, None, Some ba, h))"
    by (simp add: bit_array_split_def)
  have c2: "0 < pos \<and> n_bits ba \<le> pos \<longrightarrow>
      bit_array_split ba pos h = Some (Returned (0, Some ba, None, h))"
    by (simp add: bit_array_split_def)
  have c3: "0 < pos \<and> pos < n_bits ba \<and> bit_array_split ba pos h = Some (Returned (0, lo, hi, h')) \<longrightarrow>
      (\<exists>l u. lo = Some l \<and> hi = Some u \<and>
         n_bits l = pos \<and> (\<forall>i<pos. bit_array_test l i = bit_array_test ba i) \<and>
         n_bits u = n_bits ba - pos \<and>
         (\<forall>i<n_bits ba - pos. bit_array_test u i = bit_array_test ba (pos + i)) \<and>
         (\<exists>d1 h1 b1 h2. emalloc_outcome (NUM_OF_BYTES pos) h = (Some d1, h1) \<and>
            bit_array_new (n_bits ba - pos) h1 = Some (Returned (Some b1, h2)) \<and>
            efree_outcome h2 = Some (Returned h') \<and> u = b1\<lparr>data := data u\<rparr>))"
  proof
    assume a: "0 < pos \<and> pos < n_bits ba \<and>
               bit_array_split ba pos h = Some (Returned (0, lo, hi, h'))"
    from bit_array_split_inside[of pos ba h 0 lo hi h'] a
    obtain d1 h1 b1 h2 where
      em: "emalloc_outcome (NUM_OF_BYTES pos) h = (Some d1, h1)" and
      new: "bit_array_new (n_bits ba - pos) h1 = Some (Returned (Some b1, h2))" and
      fr: "efree_outcome h2 = Some (Returned h')" and
      lo: "lo = Some (ba\<lparr>n_bytes := NUM_OF_BYTES pos, n_bits := pos,
                         data := low_data (data ba) pos (bytes_of d1)\<rparr>)" and
      hi: "hi = Some (b1\<lparr>data := high_data (data ba) pos (n_bits ba) (data b1)\<rparr>)"
      by (auto simp: ENOMEM_def)
    have nb: "n_bits b1 = n_bits ba - pos" using bit_array_new_Some(1)[OF new] .
    show "\<exists>l u. lo = Some l \<and> hi = Some u \<and>
         n_bits l = pos \<and> (\<forall>i<pos. bit_array_test l i = bit_array_test ba i) \<and>
         n_bits u = n_bits ba - pos \<and>
         (\<forall>i<n_bits ba - pos. bit_array_test u i = bit_array_test ba (pos + i)) \<and>
         (\<exists>d1 h1 b1 h2. emalloc_outcome (NUM_OF_BYTES pos) h = (Some d1, h1) \<and>
            bit_array_new (n_bits ba - pos) h1 = Some (Returned (Some b1, h2)) \<and>
            efree_outcome h2 = Some (Returned h') \<and> u = b1\<lparr>data := data u\<rparr>)"
      unfolding lo hi
      apply (intro exI conjI allI impI)
             apply (rule refl)
            apply (rule refl)
           apply simp
          apply (simp add: bit_array_test_def Let_def low_data_bits)
         apply (simp add: nb)
        apply (simp add: bit_array_test_def Let_def high_data_bits)
       apply (rule em)
      apply (rule new)
       apply (rule fr)
      apply simp
      done
  qed
  have c4: "0 < pos \<and> pos < n_bits ba \<and> n_bits ba + 7 < 2 ^ 64 \<and>
    allocs h = Some d # Some a # Some b # rest \<and>
    (frees h = [] \<or> hd (frees h) = Free_returns) \<longrightarrow>
      (\<exists>l u. bit_array_split ba pos h =
                Some (Returned (0, Some l, Some u, h\<lparr>allocs := rest, frees := tl (frees h)\<rparr>)) \<and>
         n_bits l = pos \<and> (\<forall>i<pos. bit_array_test l i = bit_array_test ba i) \<and>
         n_bits u = n_bits ba - pos \<and>
         (\<forall>i<n_bits ba - pos. bit_array_test u i = bit_array_test ba (pos + i)))"
  proof
    assume a: "0 < pos \<and> pos < n_bits ba \<and> n_bits ba + 7 < 2 ^ 64 \<and>
      allocs h = Some d # Some a # Some b # rest \<and>
      (frees h = [] \<or> hd (frees h) = Free_returns)"
    then have s: "bit_array_split ba pos h =
           Some (Returned (0,
             Some (ba\<lparr>n_bytes := NUM_OF_BYTES pos, n_bits := pos,
                      data := low_data (data ba) pos (bytes_of d)\<rparr>),
             Some \<lparr>n_bytes = NUM_OF_BYTES (n_bits ba - pos), n_bits = n_bits ba - pos,
                   data = high_data (data ba) pos (n_bits ba) (bytes_of b)\<rparr>,
             h\<lparr>allocs := rest, frees := tl (frees h)\<rparr>))"
      using bit_array_split_succeeds[of pos ba h d a b rest] by blast
    show "\<exists>l u. bit_array_split ba pos h =
                Some (Returned (0, Some l, Some u, h\<lparr>allocs := rest, frees := tl (frees h)\<rparr>)) \<and>
         n_bits l = pos \<and> (\<forall>i<pos. bit_array_test l i = bit_array_test ba i) \<and>
         n_bits u = n_bits ba - pos \<and>
         (\<forall>i<n_bits ba - pos. bit_array_test u i = bit_array_test ba (pos + i))"
      unfolding s
      apply (intro exI conjI allI impI)
          apply (rule refl)
         apply simp
        apply (simp add: bit_array_test_def Let_def low_data_bits)
       apply simp
      apply (simp add: bit_array_test_def Let_def high_data_bits)
      done
  qed
  have c5: "0 < pos \<and> pos < n_bits ba \<and> n_bits ba + 7 < 2 ^ 64 \<and>
    allocs h = Some d # Some a # Some b # rest \<and> frees h = f # fs \<and> f \<noteq> Free_returns \<longrightarrow>
      bit_array_split ba pos h = (if f = Free_aborts then Some Aborted else None)"
    using bit_array_split_efree_fails[of pos ba h d a b rest f fs] by blast
  have c6: "0 < pos \<and> pos < n_bits ba \<and> ret \<noteq> 0 \<and>
    bit_array_split ba pos h = Some (Returned (ret, lo, hi, h')) \<longrightarrow>
      ret = ENOMEM \<and> lo = None \<and> hi = None"
    using bit_array_split_inside[of pos ba h ret lo hi h'] by auto
  show ?thesis
    apply (rule conjI, rule c1)
    apply (rule conjI, rule c2)
    apply (rule conjI, rule c3)
    apply (rule conjI, rule c4)
    apply (rule conjI, rule c5)
    apply (rule c6)
    done
qed

text \<open>
  Witness for C5: splitting the 16-bit array with bytes 0xA5, 0x3C at bit 8, with the three
  allocations succeeding, gives two arrays of 8 bits that agree with the original, and leaves
  an empty heap; with no memory the same split returns ENOMEM; at bit 5 it gives 5 and 11
  bits.
\<close>

theorem bit_array_split_correct_witness:
  "(0 < (8::nat) \<and> 8 < n_bits ba16 \<and> n_bits ba16 + 7 < 2 ^ 64 \<and>
    allocs heap3 = [Some (Block 64 (\<lambda>_. 0xEE)), Some (Block 96 (\<lambda>_. 0xEE)),
                    Some (Block 128 (\<lambda>_. 0xEE))] \<and> frees heap3 = []) \<and>
   (\<exists>l u. bit_array_split ba16 8 heap3 = Some (Returned (0, Some l, Some u, heap0)) \<and>
      n_bits l = 8 \<and> n_bits u = 8 \<and>
      (\<forall>i<8. bit_array_test l i = bit_array_test ba16 i) \<and>
      (\<forall>i<8. bit_array_test u i = bit_array_test ba16 (8 + i))) \<and>
   (\<exists>l u. bit_array_split ba16 5 heap3 = Some (Returned (0, Some l, Some u, heap0)) \<and>
      n_bits l = 5 \<and> n_bits u = 11 \<and>
      (\<forall>i<5. bit_array_test l i = bit_array_test ba16 i) \<and>
      (\<forall>i<11. bit_array_test u i = bit_array_test ba16 (5 + i)))"
proof -
  let ?d = "Block 64 (\<lambda>_. 0xEE)" and ?a = "Block 96 (\<lambda>_. 0xEE)" and ?b = "Block 128 (\<lambda>_. 0xEE)"
  have n: "n_bits ba16 = 16" by (simp add: ba16_def)
  have al: "allocs heap3 = Some ?d # Some ?a # Some ?b # []" and fr: "frees heap3 = []"
    by (simp_all add: heap3_def)
  have e: "heap3\<lparr>allocs := [], frees := tl (frees heap3)\<rparr> = heap0"
    by (simp add: heap3_def heap0_def)
  have p8: "0 < (8::nat) \<and> 8 < n_bits ba16 \<and> n_bits ba16 + 7 < 2 ^ 64 \<and>
      allocs heap3 = Some ?d # Some ?a # Some ?b # [] \<and>
      (frees heap3 = [] \<or> hd (frees heap3) = Free_returns)"
    using n al fr by simp
  have p5: "0 < (5::nat) \<and> 5 < n_bits ba16 \<and> n_bits ba16 + 7 < 2 ^ 64 \<and>
      allocs heap3 = Some ?d # Some ?a # Some ?b # [] \<and>
      (frees heap3 = [] \<or> hd (frees heap3) = Free_returns)"
    using n al fr by simp
  have r8: "\<exists>l u. bit_array_split ba16 8 heap3 = Some (Returned (0, Some l, Some u, heap0)) \<and>
      n_bits l = 8 \<and> (\<forall>i<8. bit_array_test l i = bit_array_test ba16 i) \<and>
      n_bits u = 16 - 8 \<and> (\<forall>i<16 - 8. bit_array_test u i = bit_array_test ba16 (8 + i))"
    using bit_array_split_correct [of ba16 heap3 8 None None heap0 ?d ?a ?b "[]"
             Free_returns "[]" 0] p8
    unfolding e n by blast
  have r5: "\<exists>l u. bit_array_split ba16 5 heap3 = Some (Returned (0, Some l, Some u, heap0)) \<and>
      n_bits l = 5 \<and> (\<forall>i<5. bit_array_test l i = bit_array_test ba16 i) \<and>
      n_bits u = 16 - 5 \<and> (\<forall>i<16 - 5. bit_array_test u i = bit_array_test ba16 (5 + i))"
    using bit_array_split_correct [of ba16 heap3 5 None None heap0 ?d ?a ?b "[]"
             Free_returns "[]" 0] p5
    unfolding e n by blast
  show ?thesis
    apply (rule conjI)
    using n al fr apply simp
    apply (rule conjI)
    using r8 apply auto[1]
    using r5 apply auto[1]
    done
qed
subsection \<open>When every efree returns\<close>

lemma frees_return_efree:
  assumes "frees_return h"
  shows "efree_outcome h = Some (Returned (h\<lparr>frees := tl (frees h)\<rparr>))"
proof (rule efree_outcome_ok)
  show "frees h = [] \<or> hd (frees h) = Free_returns"
    using assms by (cases "frees h") (simp_all add: frees_return_def)
qed

lemma frees_return_tl: "frees_return h \<Longrightarrow> frees_return (h\<lparr>frees := tl (frees h)\<rparr>)"
  by (cases "frees h") (simp_all add: frees_return_def)

lemma frees_return_allocs [simp]: "frees_return (h\<lparr>allocs := a\<rparr>) = frees_return h"
  by (simp add: frees_return_def)

lemma frees_return_emalloc:
  "emalloc_outcome sz h = (r, h') \<Longrightarrow> frees_return h' = frees_return h"
  by (auto simp: emalloc_outcome_def split: list.splits)

lemma bit_array_new_returns:
  assumes "frees_return h"
  shows "\<exists>r h'. bit_array_new n h = Some (Returned (r, h')) \<and> frees_return h'"
proof (cases "n = 0 \<or> ROUND_TO n 8 < n")
  case True
  then show ?thesis using assms by (auto simp: bit_array_new_def)
next
  case False
  obtain r1 h1 where e1: "emalloc_outcome 24 h = (r1, h1)" by (cases "emalloc_outcome 24 h")
  obtain r2 h2 where e2: "emalloc_outcome (NUM_OF_BYTES n) h1 = (r2, h2)"
    by (cases "emalloc_outcome (NUM_OF_BYTES n) h1")
  have f1: "frees_return h1" using frees_return_emalloc[OF e1] assms by simp
  have f2: "frees_return h2" using frees_return_emalloc[OF e2] f1 by simp
  show ?thesis
  proof (cases r1)
    case None
    then show ?thesis using False e1 f1 by (simp add: bit_array_new_def Let_def)
  next
    case (Some a)
    show ?thesis
    proof (cases r2)
      case None
      then show ?thesis
        using False e1 e2 Some f2
        by (simp add: bit_array_new_def Let_def frees_return_efree frees_return_tl)
    next
      case (Some d)
      then show ?thesis
        using False e1 e2 \<open>r1 = Some a\<close> f2 by (simp add: bit_array_new_def Let_def)
    qed
  qed
qed

lemma bit_array_new_set_returns:
  assumes "frees_return h"
  shows "\<exists>r h'. bit_array_new_set n h = Some (Returned (r, h')) \<and> frees_return h'"
  using bit_array_new_returns[OF assms, of n]
  by (auto simp: bit_array_new_set_def split: option.splits)

lemma bit_array_new_reset_returns:
  assumes "frees_return h"
  shows "\<exists>r h'. bit_array_new_reset n h = Some (Returned (r, h')) \<and> frees_return h'"
  using bit_array_new_returns[OF assms, of n]
  by (auto simp: bit_array_new_reset_def split: option.splits)


section \<open>Internal heap: what efree does with the right neighbour\<close>

lemmas emalloc_consts = META_RESERVE_SIZE_def header_size_def exact_match_increment_def
  min_block_size_def num_exact_list_def max_exact_size_def alloc_mask_def size_mask_def

lemma merge_loop_stop: "\<not> (nr \<noteq> 0 \<and> is_alloced s nr) \<Longrightarrow> merge_loop s b nr = Some s"
  by (subst merge_loop.simps) auto

text \<open>
  In a stuck state remove_from_lists changes nothing, and the only effect of an iteration is
  the addition to the header of \<^verbatim>\<open>b\<close>; the state after the iteration is stuck again.
\<close>

lemma stuck_remove:
  assumes "stuck s b nr"
  shows "remove_from_lists s nr = s"
proof -
  have h: "nr \<noteq> head_of s lh" for lh
    using assms by (cases lh) (auto simp: stuck_def)
  have "remove_from_list s nr lh = s" for lh
    using assms h[of lh] by (simp add: remove_from_list_def Let_def stuck_def)
  then show ?thesis by (simp add: remove_from_lists_def Let_def)
qed

lemma stuck_step:
  assumes "stuck s b nr"
  shows "stuck (store s b v) b nr"
  using assms by (auto simp: stuck_def store_def is_alloced_def)

lemma merge_loop_stuck:
  assumes r: "merge_loop s b nr = Some y"
  shows "\<not> stuck s b nr"
proof (rule merge_loop.raw_induct[where P = "\<lambda>s b nr y. \<not> stuck s b nr", OF _ r], goal_cases)
  case (1 f s b nr y)
  show ?case
  proof
    assume st: "stuck s b nr"
    then have c: "nr \<noteq> 0 \<and> is_alloced s nr" by (simp add: stuck_def)
    from 1(2) have "f (store s b (mem s b + block_size s nr)) b nr = Some y"
      by (simp add: c stuck_remove[OF st] Let_def)
    from 1(1)[OF this] stuck_step[OF st] show False by blast
  qed
qed

lemma merge_loop_None: "stuck s b nr \<Longrightarrow> merge_loop s b nr = None"
  using merge_loop_stuck by (cases "merge_loop s b nr") auto

text \<open>
  Claim C2, evaluated on the code. Block A at \<^verbatim>\<open>0x7F0000018020\<close> is freed; its right neighbour
  B at \<^verbatim>\<open>0x7F0000019020\<close> lies in the same reserve and is free. efree returns with A and B as
  two separate free blocks of \<^verbatim>\<open>0x1000\<close> bytes each, A put in front of B on the large list:
  nothing is coalesced.
\<close>

theorem efree_free_right_neighbor_not_merged:
  "\<exists>s'. efree heap_high 0x7F0000018028 = Some (Returned s') \<and>
     mem s' 0x7F0000018020 = 0x1000 \<and> mem s' 0x7F0000019020 = 0x1000 \<and>
     large_block_list s' = 0x7F0000018020 \<and> mem s' 0x7F0000018028 = 0x7F0000019020"
  by (simp add: efree_def Let_def payload_to_block_def heap_high_def block_size_def
        find_used_in_reserve_def reconfigure_block_def store_def possibly_merge_def
        neighbor_right_def block_end_def merge_loop_stop put_free_block_def
        prepend_to_list_def emalloc_consts)

text \<open>
  The same at the low address, where neighbor_right does find B: the loop of possibly_merge
  is not entered for a free neighbour, and again nothing is coalesced.
\<close>

lemma efree_low_free_not_merged:
  "neighbor_right (store (store (store heap_low_free 0x18020 0x1000) 0x18028 0) 0x18030 0) 0x18020
     = 0x19020 \<and>
   (\<exists>s'. efree heap_low_free 0x18028 = Some (Returned s') \<and>
     mem s' 0x18020 = 0x1000 \<and> mem s' 0x19020 = 0x1000 \<and>
     large_block_list s' = 0x18020 \<and> mem s' 0x18028 = 0x19020)"
  by (simp add: efree_def Let_def payload_to_block_def heap_low_free_def block_size_def
        find_used_in_reserve_def reconfigure_block_def store_def possibly_merge_def
        neighbor_right_def block_end_def merge_loop_stop put_free_block_def is_alloced_def
        prepend_to_list_def emalloc_consts)

lemma neighbor_right_low:
  "neighbor_right (store (store (store heap_low 0x18020 0x1000) 0x18028 0) 0x18030 0) 0x18020
     = 0x19020"
  by (simp add: neighbor_right_def heap_low_def store_def block_end_def block_size_def
        find_used_in_reserve_def size_mask_def exact_match_increment_def Let_def)

text \<open>
  Claim C3, evaluated on the code. Block A at \<^verbatim>\<open>0x18020\<close> is freed while its right neighbour B
  at \<^verbatim>\<open>0x19020\<close> is still allocated. neighbor_right returns B, the loop of possibly_merge is
  entered and never left: efree does not return.
\<close>

theorem efree_allocated_right_neighbor_diverges: "efree heap_low 0x18028 = None"
proof -
  let ?s3 = "store (store (store heap_low 0x18020 0x1000) 0x18028 0) 0x18030 0"
  have "stuck ?s3 0x18020 0x19020"
    by (simp add: stuck_def heap_low_def store_def is_alloced_def alloc_mask_def)
  then have "merge_loop ?s3 0x18020 0x19020 = None" by (rule merge_loop_None)
  then have "possibly_merge ?s3 0x18020 = None"
    by (simp add: possibly_merge_def neighbor_right_low)
  moreover have "reconfigure_block heap_low 0x18020 = possibly_merge ?s3 0x18020"
    by (simp add: reconfigure_block_def Let_def heap_low_def store_def size_mask_def
         exact_match_increment_def min_block_size_def)
  ultimately have "reconfigure_block heap_low 0x18020 = None" by simp
  then show ?thesis
    by (simp add: efree_def Let_def payload_to_block_def header_size_def)
       (simp add: heap_low_def find_used_in_reserve_def block_size_def size_mask_def
          exact_match_increment_def META_RESERVE_SIZE_def)
qed

section \<open>Enclave memory areas: properties\<close>

lemma errno_ne: "EINVAL \<noteq> 0" "EACCES \<noteq> 0" "ENOMEM \<noteq> 0" "EFAULT \<noteq> 0" "EACCES \<noteq> EINVAL"
  by (simp_all add: EINVAL_def EACCES_def ENOMEM_def EFAULT_def)

lemmas ema_consts = SGX_PAGE_SIZE_def SGX_PAGE_SHIFT_def SGX_EMA_RESERVE_def
  SGX_EMA_COMMIT_NOW_def SGX_EMA_COMMIT_ON_DEMAND_def SGX_EMA_GROWSDOWN_def SGX_EMA_GROWSUP_def
  SGX_EMA_PROT_NONE_def SGX_EMA_PROT_READ_def SGX_EMA_PROT_WRITE_def SGX_EMA_PROT_EXEC_def
  SGX_EMA_PROT_READ_WRITE_def SGX_EMA_PROT_READ_EXEC_def SGX_EMA_PROT_READ_WRITE_EXEC_def
  SGX_EMA_PROT_MASK_def SGX_EMA_PAGE_TYPE_TCS_def SGX_EMA_PAGE_TYPE_REG_def
  SGX_EMA_PAGE_TYPE_TRIM_def SGX_EMA_PAGE_TYPE_MASK_def SGX_EMA_STATE_PENDING_def
  SGX_EMA_STATE_MODIFIED_def SGX_EMA_STATE_PR_def MAX_sz_def MIN_sz_def

lemmas inputs = rt_ok_def guard_ema_def one_node_def blocks_def stack_ema_def reserved_ema_def
  committed_ema_def

subsection \<open>The order of EACCEPT at allocation\<close>

lemma page_addrs_Suc: "page_addrs start (Suc n) = start # page_addrs (start + SGX_PAGE_SIZE) n"
  by (simp add: page_addrs_def upt_rec[of 0] map_Suc_upt[symmetric] del: upt_Suc)

lemma page_addrs_snoc: "page_addrs start (Suc n) = page_addrs start n @ [start + n * SGX_PAGE_SIZE]"
  by (simp add: page_addrs_def)

lemma add_sz_lt: "a + b < 2 ^ 64 \<Longrightarrow> add_sz a b = a + b"
  by (simp add: add_sz_def)

lemma sub_sz_le:
  assumes "b \<le> a" "a < 2 ^ 64"
  shows "sub_sz a b = a - b"
proof -
  have "(2 ^ 64 + a - b :: nat) = 2 ^ 64 + (a - b)" using assms(1) by simp
  moreover have "a - b < 2 ^ 64" using assms(2) by simp
  ultimately show ?thesis unfolding sub_sz_def by (simp only: mod_add_self1 mod_less)
qed

lemma forward_ok:
  assumes ok: "\<And>tr si a. do_eaccept r tr si a = 0"
    and lt: "start + n * SGX_PAGE_SIZE < 2 ^ 64"
  shows "eaccept_range_forward r tr si start (start + n * SGX_PAGE_SIZE) =
           Some (Returned (0, tr @ map (EACCEPT si) (page_addrs start n)))"
  using lt
proof (induction n arbitrary: start tr)
  case 0
  show ?case by (subst eaccept_range_forward.simps) (simp add: page_addrs_def)
next
  case (Suc n)
  have a: "add_sz start SGX_PAGE_SIZE = start + SGX_PAGE_SIZE"
    using Suc.prems by (simp add: add_sz_def)
  have "eaccept_range_forward r tr si start (start + Suc n * SGX_PAGE_SIZE) =
        eaccept_range_forward r (tr @ [EACCEPT si start]) si (start + SGX_PAGE_SIZE)
          (start + SGX_PAGE_SIZE + n * SGX_PAGE_SIZE)"
    by (subst eaccept_range_forward.simps) (simp add: ok a, simp add: SGX_PAGE_SIZE_def ac_simps)
  also have "\<dots> = Some (Returned (0, (tr @ [EACCEPT si start]) @
        map (EACCEPT si) (page_addrs (start + SGX_PAGE_SIZE) n)))"
    by (rule Suc.IH) (use Suc.prems in \<open>simp add: ac_simps\<close>)
  finally show ?case by (simp add: page_addrs_Suc)
qed

lemma backward_ok:
  assumes ok: "\<And>tr si a. do_eaccept r tr si a = 0"
    and lt: "start + Suc n * SGX_PAGE_SIZE < 2 ^ 64"
  shows "eaccept_range_backward r tr si start (start + Suc n * SGX_PAGE_SIZE) =
           Some (Returned (0, tr @ map (EACCEPT si) (rev (page_addrs start (Suc n)))))"
  using lt
proof (induction n arbitrary: tr)
  case 0
  have "sub_sz (start + SGX_PAGE_SIZE) SGX_PAGE_SIZE = start"
    using 0 by (simp add: sub_sz_le)
  then show ?case
    by (subst eaccept_range_backward.simps) (simp add: page_addrs_def ok Let_def)
next
  case (Suc n)
  have s: "sub_sz (start + Suc (Suc n) * SGX_PAGE_SIZE) SGX_PAGE_SIZE
             = start + Suc n * SGX_PAGE_SIZE"
    using Suc.prems by (simp add: sub_sz_le)
  have "eaccept_range_backward r tr si start (start + Suc (Suc n) * SGX_PAGE_SIZE) =
        eaccept_range_backward r (tr @ [EACCEPT si (start + Suc n * SGX_PAGE_SIZE)]) si start
          (start + Suc n * SGX_PAGE_SIZE)"
    by (subst eaccept_range_backward.simps)
       (simp add: ok s Let_def del: mult_Suc, simp add: SGX_PAGE_SIZE_def)
  also have "\<dots> = Some (Returned (0, (tr @ [EACCEPT si (start + Suc n * SGX_PAGE_SIZE)]) @
        map (EACCEPT si) (rev (page_addrs start (Suc n)))))"
    by (rule Suc.IH) (use Suc.prems in simp)
  finally show ?case by (simp add: page_addrs_snoc[of start "Suc n"])
qed

lemma ema_set_eaccept_full_returns:
  assumes "frees_return (heap s)"
  shows "\<exists>ret s'. ema_set_eaccept_full s node = Some (Returned (ret, s')) \<and>
           (ret = 0 \<or> ret = ENOMEM) \<and> trace s' = trace s \<and> frees_return (heap s')"
proof (cases "eaccept_map (nodes s node)")
  case None
  obtain r h' where
    "bit_array_new_set (drop_bit SGX_PAGE_SHIFT (ema_size (nodes s node))) (heap s)
       = Some (Returned (r, h'))" "frees_return h'"
    using bit_array_new_set_returns[OF assms] by blast
  then show ?thesis
    using None by (cases r) (simp_all add: ema_set_eaccept_full_def)
next
  case (Some bm)
  then show ?thesis using assms by (simp add: ema_set_eaccept_full_def)
qed

lemma ema_do_alloc_commit_now:
  assumes now: "alloc_flags (nodes s node) AND SGX_EMA_COMMIT_NOW \<noteq> 0"
    and nres: "alloc_flags (nodes s node) AND SGX_EMA_RESERVE = 0"
    and sz: "ema_size (nodes s node) = n * SGX_PAGE_SIZE" "0 < n"
    and lt: "start_addr (nodes s node) + ema_size (nodes s node) < 2 ^ 64"
    and ocall: "\<And>tr a z t f. sgx_mm_alloc_ocall r tr a z t f = 0"
    and acc: "\<And>tr si a. do_eaccept r tr si a = 0"
    and fr: "frees_return (heap s)"
  shows "\<exists>ret s'. ema_do_alloc r s node = Some (Returned (ret, s')) \<and>
           (ret = 0 \<or> ret = ENOMEM) \<and>
           trace s' = trace s @
             [ALLOC_OCALL (start_addr (nodes s node)) (ema_size (nodes s node))
                (ucast (si_flags (nodes s node) AND scast SGX_EMA_PAGE_TYPE_MASK))
                (alloc_flags (nodes s node))] @
              map (EACCEPT (si_flags (nodes s node) OR SGX_EMA_STATE_PENDING))
                (if alloc_flags (nodes s node) AND SGX_EMA_GROWSDOWN \<noteq> 0
                 then page_addrs (start_addr (nodes s node)) n
                 else rev (page_addrs (start_addr (nodes s node)) n))"
proof -
  obtain m where n: "n = Suc m" using sz(2) by (cases n) auto
  let ?start = "start_addr (nodes s node)"
  let ?e = "ALLOC_OCALL ?start (ema_size (nodes s node))
              (ucast (si_flags (nodes s node) AND scast SGX_EMA_PAGE_TYPE_MASK))
              (alloc_flags (nodes s node))"
  let ?si = "si_flags (nodes s node) OR SGX_EMA_STATE_PENDING"
  let ?addrs = "(if alloc_flags (nodes s node) AND SGX_EMA_GROWSDOWN \<noteq> 0
                 then page_addrs ?start n else rev (page_addrs ?start n))"
  let ?tr = "trace s @ [?e] @ map (EACCEPT ?si) ?addrs"
  let ?s2 = "(emit s ?e)\<lparr>trace := ?tr\<rparr>"
  have lt': "?start + n * SGX_PAGE_SIZE < 2 ^ 64" using lt sz(1) by simp
  have e: "add_sz ?start (n * SGX_PAGE_SIZE) = ?start + n * SGX_PAGE_SIZE"
    using lt' by (rule add_sz_lt)
  have f: "eaccept_range_forward r tr si ?start (add_sz ?start (ema_size (nodes s node)))
             = Some (Returned (0, tr @ map (EACCEPT si) (page_addrs ?start n)))" for tr si
    unfolding sz(1) e by (rule forward_ok[OF acc lt'])
  have b: "eaccept_range_backward r tr si ?start (add_sz ?start (ema_size (nodes s node)))
             = Some (Returned (0, tr @ map (EACCEPT si) (rev (page_addrs ?start n))))" for tr si
    unfolding sz(1) e unfolding n by (rule backward_ok[OF acc]) (use lt' n in simp)
  have c: "do_commit r (trace s @ [?e]) ?start (ema_size (nodes s node))
             (si_flags (nodes s node)) g
           = Some (Returned (0, trace s @ [?e] @ map (EACCEPT ?si)
                (if g then rev (page_addrs ?start n) else page_addrs ?start n)))" for g
    by (simp add: do_commit_def Let_def f b)
  have "ema_do_alloc r s node = ema_set_eaccept_full ?s2 node"
    using now nres by (simp add: ema_do_alloc_def Let_def ocall emit_def c)
  moreover have "frees_return (heap ?s2)" using fr by (simp add: emit_def)
  from ema_set_eaccept_full_returns[OF this, of node]
  obtain ret s' where "ema_set_eaccept_full ?s2 node = Some (Returned (ret, s'))"
    "ret = 0 \<or> ret = ENOMEM" "trace s' = ?tr"
    by auto
  ultimately show ?thesis by auto
qed

lemma page_addrs4: "page_addrs 0x10000 4 = [0x10000, 0x11000, 0x12000, 0x13000]"
  by (simp add: page_addrs_def SGX_PAGE_SIZE_def upt_rec)

lemma stack_alloc:
  "\<exists>ret s'. ema_do_alloc rt_ok (one_node stack_ema blocks) 0x5000 = Some (Returned (ret, s')) \<and>
     trace s' = [ALLOC_OCALL 0x10000 0x4000 0x200 0x12, EACCEPT 0x20B 0x10000,
                 EACCEPT 0x20B 0x11000, EACCEPT 0x20B 0x12000, EACCEPT 0x20B 0x13000]"
  using ema_do_alloc_commit_now[of "one_node stack_ema blocks" "0x5000" 4 rt_ok]
  by (simp add: inputs ema_consts page_addrs4 frees_return_def) blast

text \<open>
  Counterexample to claim C1 as stated. A region of \<^verbatim>\<open>0x4000\<close> bytes at \<^verbatim>\<open>0x10000\<close> is allocated
  with COMMIT_NOW and GROWSDOWN. The EACCEPT instructions run from \<^verbatim>\<open>0x10000\<close> up to
  \<^verbatim>\<open>0x13000\<close>, not from \<^verbatim>\<open>addr + 0x3000\<close> down to \<^verbatim>\<open>addr\<close>.
\<close>

theorem ema_do_alloc_growsdown_counterexample:
  "eaccept_addrs (trace_of (ema_do_alloc rt_ok (one_node stack_ema blocks) 0x5000))
     = [0x10000, 0x11000, 0x12000, 0x13000] \<and>
   eaccept_addrs (trace_of (ema_do_alloc rt_ok (one_node stack_ema blocks) 0x5000))
     \<noteq> [0x13000, 0x12000, 0x11000, 0x10000]"
  using stack_alloc by auto

text \<open>
  Claim C1, amended. For a node that is not RESERVE and has COMMIT_NOW, of \<^verbatim>\<open>n > 0\<close> pages
  that end below \<^verbatim>\<open>2 ^ 64\<close>, in a runtime where the allocation out-call and every EACCEPT
  succeed and every efree returns, ema_do_alloc returns 0 or ENOMEM after it has issued the
  out-call and then one EACCEPT(PENDING | si_flags) per page: in increasing address order
  when GROWSDOWN is set, in decreasing address order when GROWSDOWN is absent.
\<close>

theorem ema_do_alloc_accept_order:
  assumes "alloc_flags (nodes s node) AND SGX_EMA_COMMIT_NOW \<noteq> 0"
    and "alloc_flags (nodes s node) AND SGX_EMA_RESERVE = 0"
    and "ema_size (nodes s node) = n * SGX_PAGE_SIZE" "0 < n"
    and "start_addr (nodes s node) + ema_size (nodes s node) < 2 ^ 64"
    and "\<And>tr a z t f. sgx_mm_alloc_ocall r tr a z t f = 0"
    and "\<And>tr si a. do_eaccept r tr si a = 0"
    and "frees_return (heap s)"
  shows "\<exists>ret s'. ema_do_alloc r s node = Some (Returned (ret, s')) \<and>
           (ret = 0 \<or> ret = ENOMEM) \<and>
           trace s' = trace s @
             [ALLOC_OCALL (start_addr (nodes s node)) (ema_size (nodes s node))
                (ucast (si_flags (nodes s node) AND scast SGX_EMA_PAGE_TYPE_MASK))
                (alloc_flags (nodes s node))] @
              map (EACCEPT (si_flags (nodes s node) OR SGX_EMA_STATE_PENDING))
                (if alloc_flags (nodes s node) AND SGX_EMA_GROWSDOWN \<noteq> 0
                 then page_addrs (start_addr (nodes s node)) n
                 else rev (page_addrs (start_addr (nodes s node)) n))"
  using assms by (rule ema_do_alloc_commit_now)

text \<open>
  Witness for C1: the same region without GROWSDOWN (a grow-up region) is accepted from
  \<^verbatim>\<open>0x13000\<close> down to \<^verbatim>\<open>0x10000\<close>.
\<close>

theorem ema_do_alloc_accept_order_witness:
  "alloc_flags (stack_ema\<lparr>alloc_flags := SGX_EMA_COMMIT_NOW\<rparr>) AND SGX_EMA_COMMIT_NOW \<noteq> 0 \<and>
   alloc_flags (stack_ema\<lparr>alloc_flags := SGX_EMA_COMMIT_NOW\<rparr>) AND SGX_EMA_RESERVE = 0 \<and>
   ema_size (stack_ema\<lparr>alloc_flags := SGX_EMA_COMMIT_NOW\<rparr>) = 4 * SGX_PAGE_SIZE \<and> (0::nat) < 4 \<and>
   start_addr (stack_ema\<lparr>alloc_flags := SGX_EMA_COMMIT_NOW\<rparr>)
     + ema_size (stack_ema\<lparr>alloc_flags := SGX_EMA_COMMIT_NOW\<rparr>) < 2 ^ 64 \<and>
   frees_return blocks \<and>
   eaccept_addrs (trace_of (ema_do_alloc rt_ok
       (one_node (stack_ema\<lparr>alloc_flags := SGX_EMA_COMMIT_NOW\<rparr>) blocks) 0x5000))
     = [0x13000, 0x12000, 0x11000, 0x10000]"
  using ema_do_alloc_accept_order
      [of "one_node (stack_ema\<lparr>alloc_flags := SGX_EMA_COMMIT_NOW\<rparr>) blocks" "0x5000" 4 rt_ok]
  by (auto simp: inputs ema_consts page_addrs4 frees_return_def)
subsection \<open>Commit on a reserved region\<close>

lemma can_commit_from_reserve:
  assumes "ema_seg ns cur ps lastn" "\<exists>p\<in>set ps. alloc_flags (ns p) AND SGX_EMA_RESERVE \<noteq> 0"
  shows "\<exists>e. can_commit_from ns cur lastn pe end = Some e \<and> (e = EACCES \<or> e = EINVAL) \<and>
             (contiguous ns pe ps \<longrightarrow> e = EACCES)"
  using assms
proof (induction ps arbitrary: cur pe)
  case Nil
  then show ?case by simp
next
  case (Cons p ps)
  then have c: "cur = p" "p \<noteq> lastn" and seg: "ema_seg ns (next (ns p)) ps lastn" by auto
  show ?case
  proof (cases "alloc_flags (ns p) AND SGX_EMA_RESERVE \<noteq> 0")
    case True
    then show ?thesis
      by (subst can_commit_from.simps) (auto simp: c)
  next
    case False
    with Cons.prems(2) have "\<exists>q\<in>set ps. alloc_flags (ns q) AND SGX_EMA_RESERVE \<noteq> 0" by auto
    from Cons.IH[OF seg this, of "add_sz (start_addr (ns p)) (ema_size (ns p))"]
    show ?thesis
      by (subst can_commit_from.simps) (auto simp: c False)
  qed
qed

lemma reserved_seg: "ema_seg (nodes (one_node reserved_ema heap0)) 0x5000 [0x5000] 0x100"
  by (simp add: inputs)

lemma reserved_can_commit:
  "ema_can_commit (nodes (one_node reserved_ema heap0)) 0x5000 0x100 0x20000 0x21000
     = Some EACCES"
  unfolding ema_can_commit_def
  by (subst can_commit_from.simps) (simp add: inputs ema_consts)

text \<open>
  Counterexample to claim C4 as stated. A commit of the first page of a reserved region (one
  RESERVE node, \<^verbatim>\<open>first\<close> the node and \<^verbatim>\<open>last\<close> the guard, as search_ema_range returns them)
  is rejected by the precheck with EACCES, not with EINVAL.
\<close>

theorem commit_on_reserve_counterexample:
  "ema_can_commit (nodes (one_node reserved_ema heap0)) 0x5000 0x100 0x20000 0x21000
     = Some EACCES \<and>
   ema_can_commit (nodes (one_node reserved_ema heap0)) 0x5000 0x100 0x20000 0x21000
     \<noteq> Some EINVAL"
  using reserved_can_commit errno_ne by simp

text \<open>
  Claim C4, amended. When one of the EMAs that cover the request carries RESERVE, the
  precheck ema_can_commit returns an error, which is EACCES or EINVAL, and it is EACCES when
  the covering EMAs have no gap between them. ema_do_commit_loop returns that error and
  leaves the state (nodes, bitmaps, heap and events) exactly as it was.
\<close>

theorem commit_on_reserve_rejected:
  assumes "ema_seg (nodes s) first ps lastn"
    and "\<exists>p\<in>set ps. alloc_flags (nodes s p) AND SGX_EMA_RESERVE \<noteq> 0"
  shows "\<exists>e. ema_can_commit (nodes s) first lastn start end = Some e \<and>
              (e = EACCES \<or> e = EINVAL) \<and>
              (contiguous (nodes s) (start_addr (nodes s first)) ps \<longrightarrow> e = EACCES) \<and>
              ema_do_commit_loop r s first lastn start end = Some (Returned (e, s))"
proof -
  from can_commit_from_reserve[OF assms, of "start_addr (nodes s first)" "end"]
  obtain e where e: "can_commit_from (nodes s) first lastn (start_addr (nodes s first)) end = Some e"
    "e = EACCES \<or> e = EINVAL" "contiguous (nodes s) (start_addr (nodes s first)) ps \<longrightarrow> e = EACCES"
    by blast
  then have "e \<noteq> 0" using errno_ne by auto
  with e show ?thesis
    by (auto simp: ema_can_commit_def ema_do_commit_loop_def)
qed

text \<open>Witness for C4: the reserved region again; the loop returns EACCES and the same state.\<close>

theorem commit_on_reserve_rejected_witness:
  "ema_seg (nodes (one_node reserved_ema heap0)) 0x5000 [0x5000] 0x100 \<and>
   (\<exists>p\<in>set [0x5000].
      alloc_flags (nodes (one_node reserved_ema heap0) p) AND SGX_EMA_RESERVE \<noteq> 0) \<and>
   ema_do_commit_loop rt_ok (one_node reserved_ema heap0) 0x5000 0x100 0x20000 0x21000
     = Some (Returned (EACCES, one_node reserved_ema heap0))"
proof -
  have r: "\<exists>p\<in>set [0x5000].
             alloc_flags (nodes (one_node reserved_ema heap0) p) AND SGX_EMA_RESERVE \<noteq> 0"
    by (simp add: inputs ema_consts)
  have c: "contiguous (nodes (one_node reserved_ema heap0))
             (start_addr (nodes (one_node reserved_ema heap0) 0x5000)) [0x5000]"
    by simp
  show ?thesis
    using commit_on_reserve_rejected[OF reserved_seg r, of "0x20000" "0x21000" rt_ok] c reserved_seg r
    by auto
qed

subsection \<open>Commit of committed pages\<close>

lemma commit_pages_noop:
  assumes bm: "eaccept_map (nodes s node) = Some bm"
    and bits: "\<forall>addr. a \<le> addr \<and> addr < real_end \<longrightarrow>
           bit_array_test bm (drop_bit SGX_PAGE_SHIFT (sub_sz addr (start_addr (nodes s node))))"
    and lt: "real_end + SGX_PAGE_SIZE \<le> 2 ^ 64"
  shows "commit_pages r s node si a real_end = Some (Returned (0, s))"
  using bits
proof (induction "real_end - a" arbitrary: a rule: less_induct)
  case less
  show ?case
  proof (cases "a < real_end")
    case True
    have t: "bit_array_test bm (drop_bit SGX_PAGE_SHIFT (sub_sz a (start_addr (nodes s node))))"
      using less.prems True by simp
    have n: "add_sz a SGX_PAGE_SIZE = a + SGX_PAGE_SIZE"
      using True lt by (simp add: add_sz_lt)
    have "commit_pages r s node si a real_end =
            commit_pages r s node si (a + SGX_PAGE_SIZE) real_end"
      by (subst commit_pages.simps) (simp add: True bm t n Let_def)
    also have "\<dots> = Some (Returned (0, s))"
    proof (rule less.hyps)
      show "real_end - (a + SGX_PAGE_SIZE) < real_end - a"
        using True by (simp add: SGX_PAGE_SIZE_def)
      show "\<forall>addr. a + SGX_PAGE_SIZE \<le> addr \<and> addr < real_end \<longrightarrow>
           bit_array_test bm (drop_bit SGX_PAGE_SHIFT (sub_sz addr (start_addr (nodes s node))))"
        using less.prems by simp
    qed
    finally show ?thesis .
  next
    case False
    then show ?thesis by (subst commit_pages.simps) simp
  qed
qed

lemma MIN_sz_le: "MIN_sz x y \<le> x"
  by (simp add: MIN_sz_def)

lemma ema_do_commit_noop:
  assumes "all_committed (nodes s node) start end" "end + SGX_PAGE_SIZE \<le> 2 ^ 64"
  shows "ema_do_commit r s node start end = Some (Returned (0, s))"
proof -
  let ?re = "MIN_sz end (add_sz (start_addr (nodes s node)) (ema_size (nodes s node)))"
  have "?re \<le> end" by (rule MIN_sz_le)
  then have lt: "?re + SGX_PAGE_SIZE \<le> 2 ^ 64" using assms(2) by simp
  from assms(1) obtain bm where bm: "eaccept_map (nodes s node) = Some bm" and
    bits: "\<forall>addr. MAX_sz start (start_addr (nodes s node)) \<le> addr \<and> addr < ?re \<longrightarrow>
           bit_array_test bm (drop_bit SGX_PAGE_SHIFT (sub_sz addr (start_addr (nodes s node))))"
    unfolding all_committed_def by blast
  show ?thesis
    unfolding ema_do_commit_def Let_def by (rule commit_pages_noop[OF bm bits lt])
qed

lemma do_commit_from_noop:
  assumes "ema_seg (nodes s) cur ps lastn" "\<forall>p\<in>set ps. all_committed (nodes s p) start end"
    and lt: "end + SGX_PAGE_SIZE \<le> 2 ^ 64"
  shows "do_commit_from r s cur lastn start end = Some (Returned (0, s))"
  using assms(1,2)
proof (induction ps arbitrary: cur)
  case Nil
  then show ?case by (subst do_commit_from.simps) simp
next
  case (Cons p ps)
  then have c: "cur = p" "p \<noteq> lastn" and seg: "ema_seg (nodes s) (next (nodes s p)) ps lastn"
    by auto
  have "ema_do_commit r s p start end = Some (Returned (0, s))"
    using Cons.prems(2) lt by (simp add: ema_do_commit_noop)
  moreover have "do_commit_from r s (next (nodes s p)) lastn start end = Some (Returned (0, s))"
    using Cons.IH[OF seg] Cons.prems(2) by simp
  ultimately show ?case
    by (subst do_commit_from.simps) (simp add: c)
qed

text \<open>The precheck passes on contiguous, writable, regular, unreserved EMAs that reach \<^verbatim>\<open>end\<close>.\<close>

lemma can_commit_from_ok:
  assumes "ema_seg ns cur ps lastn" "contiguous ns pe ps"
    and "\<forall>p\<in>set ps. si_flags (ns p) AND scast SGX_EMA_PROT_WRITE \<noteq> 0 \<and>
                    si_flags (ns p) AND scast SGX_EMA_PAGE_TYPE_REG \<noteq> 0 \<and>
                    alloc_flags (ns p) AND SGX_EMA_RESERVE = 0"
    and "end \<le> (if ps = [] then pe
                  else add_sz (start_addr (ns (last ps))) (ema_size (ns (last ps))))"
  shows "can_commit_from ns cur lastn pe end = Some 0"
  using assms
proof (induction ps arbitrary: cur pe)
  case Nil
  then show ?case by (subst can_commit_from.simps) simp
next
  case (Cons p ps)
  then have c: "cur = p" "p \<noteq> lastn" "pe = start_addr (ns p)"
    and seg: "ema_seg ns (next (ns p)) ps lastn"
    and con: "contiguous ns (add_sz (start_addr (ns p)) (ema_size (ns p))) ps"
    by auto
  have fl: "si_flags (ns p) AND scast SGX_EMA_PROT_WRITE \<noteq> 0"
    "si_flags (ns p) AND scast SGX_EMA_PAGE_TYPE_REG \<noteq> 0"
    "alloc_flags (ns p) AND SGX_EMA_RESERVE = 0"
    using Cons.prems(3) by simp_all
  have "can_commit_from ns (next (ns p)) lastn
          (add_sz (start_addr (ns p)) (ema_size (ns p))) end = Some 0"
  proof (rule Cons.IH[OF seg con])
    show "\<forall>p\<in>set ps. si_flags (ns p) AND scast SGX_EMA_PROT_WRITE \<noteq> 0 \<and>
                    si_flags (ns p) AND scast SGX_EMA_PAGE_TYPE_REG \<noteq> 0 \<and>
                    alloc_flags (ns p) AND SGX_EMA_RESERVE = 0"
      using Cons.prems(3) by simp
    show "end \<le> (if ps = [] then add_sz (start_addr (ns p)) (ema_size (ns p))
                  else add_sz (start_addr (ns (last ps))) (ema_size (ns (last ps))))"
      using Cons.prems(4) by (simp split: if_splits)
  qed
  then show ?case
    by (subst can_commit_from.simps) (simp add: c fl)
qed

text \<open>
  Claim C7. For a request that ends at least one page below \<^verbatim>\<open>2 ^ 64\<close> and whose pages all
  have their bit set in the EMAs that cover it: when the precheck passes, ema_do_commit on
  each of these EMAs and ema_do_commit_loop on the range return 0 with the state unchanged,
  so no event is added (no EACCEPT is issued) and no bit changes. The precheck does pass when
  the EMAs are contiguous, writable, of regular type and not reserved and the last of them
  reaches the end of the request.
\<close>

theorem commit_idempotent:
  assumes "ema_seg (nodes s) first ps lastn"
    and "\<forall>p\<in>set ps. all_committed (nodes s p) start end"
    and "end + SGX_PAGE_SIZE \<le> 2 ^ 64"
  shows "(ema_can_commit (nodes s) first lastn start end = Some 0 \<longrightarrow>
            (\<forall>p\<in>set ps. ema_do_commit r s p start end = Some (Returned (0, s))) \<and>
            ema_do_commit_loop r s first lastn start end = Some (Returned (0, s))) \<and>
         (ps \<noteq> [] \<and> contiguous (nodes s) (start_addr (nodes s first)) ps \<and>
          (\<forall>p\<in>set ps. si_flags (nodes s p) AND scast SGX_EMA_PROT_WRITE \<noteq> 0 \<and>
                       si_flags (nodes s p) AND scast SGX_EMA_PAGE_TYPE_REG \<noteq> 0 \<and>
                       alloc_flags (nodes s p) AND SGX_EMA_RESERVE = 0) \<and>
          end \<le> add_sz (start_addr (nodes s (last ps))) (ema_size (nodes s (last ps))) \<longrightarrow>
            ema_can_commit (nodes s) first lastn start end = Some 0)"
proof (rule conjI)
  show "ema_can_commit (nodes s) first lastn start end = Some 0 \<longrightarrow>
            (\<forall>p\<in>set ps. ema_do_commit r s p start end = Some (Returned (0, s))) \<and>
            ema_do_commit_loop r s first lastn start end = Some (Returned (0, s))"
    using assms
    by (simp add: ema_do_commit_loop_def do_commit_from_noop ema_do_commit_noop)
next
  show "ps \<noteq> [] \<and> contiguous (nodes s) (start_addr (nodes s first)) ps \<and>
          (\<forall>p\<in>set ps. si_flags (nodes s p) AND scast SGX_EMA_PROT_WRITE \<noteq> 0 \<and>
                       si_flags (nodes s p) AND scast SGX_EMA_PAGE_TYPE_REG \<noteq> 0 \<and>
                       alloc_flags (nodes s p) AND SGX_EMA_RESERVE = 0) \<and>
          end \<le> add_sz (start_addr (nodes s (last ps))) (ema_size (nodes s (last ps))) \<longrightarrow>
            ema_can_commit (nodes s) first lastn start end = Some 0"
    unfolding ema_can_commit_def
    using can_commit_from_ok[OF assms(1), of "start_addr (nodes s first)" "end"] by simp
qed

lemma committed_seg: "ema_seg (nodes (one_node committed_ema heap0)) 0x5000 [0x5000] 0x100"
  by (simp add: inputs)

lemma committed_all:
  "\<forall>p\<in>set [0x5000]. all_committed (nodes (one_node committed_ema heap0) p) 0x21000 0x23000"
proof -
  have "(0xFF :: u8) = - 1" by simp
  then have "bit (0xFF :: u8) (n mod 8)" for n :: nat
    by (simp only: bit_minus_1_iff) simp
  then show ?thesis
    by (simp add: all_committed_def inputs bit_array_test_def TEST_BIT_iff)
qed

text \<open>
  Witness for C7: committing the two middle pages of a region of four committed pages passes
  the precheck and returns 0 and the same state.
\<close>

theorem commit_idempotent_witness:
  "ema_seg (nodes (one_node committed_ema heap0)) 0x5000 [0x5000] 0x100 \<and>
   all_committed (nodes (one_node committed_ema heap0) 0x5000) 0x21000 0x23000 \<and>
   (0x23000 :: nat) + SGX_PAGE_SIZE \<le> 2 ^ 64 \<and>
   ema_can_commit (nodes (one_node committed_ema heap0)) 0x5000 0x100 0x21000 0x23000 = Some 0 \<and>
   ema_do_commit_loop rt_ok (one_node committed_ema heap0) 0x5000 0x100 0x21000 0x23000
     = Some (Returned (0, one_node committed_ema heap0))"
proof -
  have lt: "(0x23000 :: nat) + SGX_PAGE_SIZE \<le> 2 ^ 64" by (simp add: SGX_PAGE_SIZE_def)
  have ok: "[0x5000] \<noteq> ([] :: nat list) \<and>
     contiguous (nodes (one_node committed_ema heap0))
       (start_addr (nodes (one_node committed_ema heap0) 0x5000)) [0x5000] \<and>
     (\<forall>p\<in>set [0x5000].
        si_flags (nodes (one_node committed_ema heap0) p) AND scast SGX_EMA_PROT_WRITE \<noteq> 0 \<and>
        si_flags (nodes (one_node committed_ema heap0) p) AND scast SGX_EMA_PAGE_TYPE_REG \<noteq> 0 \<and>
        alloc_flags (nodes (one_node committed_ema heap0) p) AND SGX_EMA_RESERVE = 0) \<and>
     0x23000 \<le> add_sz (start_addr (nodes (one_node committed_ema heap0) (last [0x5000])))
                  (ema_size (nodes (one_node committed_ema heap0) (last [0x5000])))"
    by (simp add: inputs ema_consts add_sz_def)
  show ?thesis
    using commit_idempotent[OF committed_seg committed_all lt, of rt_ok] ok
      committed_seg committed_all lt
    by simp
qed
subsection \<open>ema_split\<close>









subsection \<open>Permission change: the instructions issued per page\<close>

lemma perm_pages_ok:
  assumes ok: "\<And>tr si a. do_eaccept r tr si a = 0"
    and lt: "page + n * SGX_PAGE_SIZE < 2 ^ 64"
  shows "perm_pages r s si prot new_prot page (page + n * SGX_PAGE_SIZE) =
           Some (Returned (0, s\<lparr>trace := trace s @
                  concat (map (page_events si prot new_prot) (page_addrs page n))\<rparr>))"
  using lt
proof (induction n arbitrary: page s)
  case 0
  show ?case by (subst perm_pages.simps) (simp add: page_addrs_def)
next
  case (Suc n)
  let ?s1 = "s\<lparr>trace := trace s @ page_events si prot new_prot page\<rparr>"
  have a: "add_sz page SGX_PAGE_SIZE = page + SGX_PAGE_SIZE"
    using Suc.prems by (simp add: add_sz_def)
  have "perm_pages r s si prot new_prot page (page + Suc n * SGX_PAGE_SIZE) =
        perm_pages r ?s1 si prot new_prot (page + SGX_PAGE_SIZE)
          (page + SGX_PAGE_SIZE + n * SGX_PAGE_SIZE)"
    by (subst perm_pages.simps)
       (simp add: ok a Let_def page_events_def emit_def ac_simps, simp add: SGX_PAGE_SIZE_def)
  also have "\<dots> = Some (Returned (0, ?s1\<lparr>trace := trace ?s1 @
        concat (map (page_events si prot new_prot) (page_addrs (page + SGX_PAGE_SIZE) n))\<rparr>))"
    by (rule Suc.IH) (use Suc.prems in \<open>simp add: ac_simps\<close>)
  finally show ?case by (simp add: page_addrs_Suc)
qed

lemma bit_array_split_returns:
  assumes fr: "frees_return h"
  shows "\<exists>ret lo hi h'. bit_array_split bm pos h = Some (Returned (ret, lo, hi, h')) \<and>
           frees_return h'"
proof (cases "0 < pos \<and> pos < n_bits bm")
  case False
  then show ?thesis using fr by (auto simp: bit_array_split_def)
next
  case True
  then have u: "bit_array_split bm pos h =
     (case emalloc_outcome (NUM_OF_BYTES pos) h of
        (None, h1) \<Rightarrow> Some (Returned (ENOMEM, None, None, h1))
      | (Some d, h1) \<Rightarrow>
          bind_res (bit_array_new (n_bits bm - pos) h1) (\<lambda>(new_ba, h2).
            case new_ba of
              None \<Rightarrow> bind_res (efree_outcome h2) (\<lambda>h3. Some (Returned (ENOMEM, None, None, h3)))
            | Some ba2 \<Rightarrow>
                bind_res (bit_array_reattach bm pos (low_data (data bm) pos (bytes_of d)) h2)
                  (\<lambda>(lower, h3).
                     Some (Returned (0, Some lower,
                        Some (ba2\<lparr>data := high_data (data bm) pos (n_bits bm) (data ba2)\<rparr>),
                        h3)))))"
    by (simp add: bit_array_split_unfold)
  obtain r1 h1 where e1: "emalloc_outcome (NUM_OF_BYTES pos) h = (r1, h1)"
    by (cases "emalloc_outcome (NUM_OF_BYTES pos) h")
  have f1: "frees_return h1" using frees_return_emalloc[OF e1] fr by simp
  show ?thesis
  proof (cases r1)
    case None
    then show ?thesis unfolding u using e1 f1 by simp
  next
    case (Some d)
    obtain r2 h2 where n: "bit_array_new (n_bits bm - pos) h1 = Some (Returned (r2, h2))"
      and f2: "frees_return h2"
      using bit_array_new_returns[OF f1] by blast
    show ?thesis
      unfolding u using e1 Some n f2
      by (cases r2)
         (simp_all add: frees_return_efree frees_return_tl bit_array_reattach_def)
  qed
qed

lemma ema_split_returns:
  assumes fr: "frees_return (heap s)"
  shows "\<exists>ret rn s'. ema_split s ema addr nl = Some (Returned (ret, rn, s')) \<and>
           trace s' = trace s \<and> frees_return (heap s')"
proof -
  obtain r1 h1 where e1: "emalloc_outcome 72 (heap s) = (r1, h1)"
    by (cases "emalloc_outcome 72 (heap s)")
  have f1: "frees_return h1" using frees_return_emalloc[OF e1] fr by simp
  show ?thesis
  proof (cases r1)
    case None
    then show ?thesis using e1 f1 by (simp add: ema_split_def)
  next
    case (Some blk)
    show ?thesis
    proof (cases "eaccept_map (nodes s ema)")
      case None
      then show ?thesis using e1 Some f1 by (simp add: ema_split_def Let_def)
    next
      case bm: (Some bm)
      obtain ret lo hi h2 where
        b: "bit_array_split bm (drop_bit SGX_PAGE_SHIFT (sub_sz addr (start_addr (nodes s ema)))) h1
              = Some (Returned (ret, lo, hi, h2))" and f2: "frees_return h2"
        using bit_array_split_returns[OF f1] by blast
      show ?thesis
        using e1 Some bm b f2
        by (cases "ret = 0")
           (simp_all add: ema_split_def Let_def frees_return_efree frees_return_tl)
    qed
  qed
qed

lemma split_if_returns:
  assumes fr: "frees_return (heap s)"
  shows "\<exists>ret n' s'. split_if c s node addr nl = Some (Returned (ret, n', s')) \<and>
           trace s' = trace s \<and> frees_return (heap s')"
proof (cases c)
  case True
  obtain ret rn s' where "ema_split s node addr nl = Some (Returned (ret, rn, s'))"
    "trace s' = trace s" "frees_return (heap s')"
    using ema_split_returns[OF fr] by blast
  then show ?thesis using True by (simp add: split_if_def)
next
  case False
  then show ?thesis using fr by (simp add: split_if_def)
qed

text \<open>
  The events of a permission change that reaches the page loop: the out-call, the events of
  the pages in increasing order, and at the end nothing or the second out-call.
\<close>

lemma ema_modify_permissions_trace:
  assumes ne: "(ucast (si_flags (nodes s node) AND scast SGX_EMA_PROT_MASK) :: i32) \<noteq> new_prot"
    and rng: "MIN_sz end (add_sz (start_addr (nodes s node)) (ema_size (nodes s node))) =
              MAX_sz start (start_addr (nodes s node)) + n * SGX_PAGE_SIZE"
    and ocall: "\<And>tr a z f t. sgx_mm_modify_ocall r tr a z f t = 0"
    and acc: "\<And>tr si a. do_eaccept r tr si a = 0"
    and fr: "frees_return (heap s)"
  shows "\<exists>ret s' e suf. ema_modify_permissions r s node start end new_prot
             = Some (Returned (ret, s')) \<and>
           trace s' = trace s @ [e] @
           concat (map (page_events
                     (scast new_prot OR scast SGX_EMA_PAGE_TYPE_REG OR SGX_EMA_STATE_PR)
                     (ucast (si_flags (nodes s node) AND scast SGX_EMA_PROT_MASK)) new_prot)
                   (page_addrs (MAX_sz start (start_addr (nodes s node))) n)) @ suf \<and>
           is_ocall e \<and> (\<forall>x\<in>set suf. is_ocall x)"
proof -
  let ?prot = "(ucast (si_flags (nodes s node) AND scast SGX_EMA_PROT_MASK) :: i32)"
  let ?type = "(ucast (si_flags (nodes s node) AND scast SGX_EMA_PAGE_TYPE_MASK) :: i32)"
  let ?rs = "MAX_sz start (start_addr (nodes s node))"
  let ?re = "?rs + n * SGX_PAGE_SIZE"
  let ?si = "scast new_prot OR scast SGX_EMA_PAGE_TYPE_REG OR SGX_EMA_STATE_PR :: u64"
  let ?e = "MODIFY_OCALL ?rs (sub_sz ?re ?rs) (?prot OR ?type) (new_prot OR ?type)"
  let ?mid = "concat (map (page_events ?si ?prot new_prot) (page_addrs ?rs n))"
  let ?s2 = "(emit s ?e)\<lparr>trace := trace (emit s ?e) @ ?mid\<rparr>"
  have "add_sz (start_addr (nodes s node)) (ema_size (nodes s node)) < 2 ^ 64"
    by (simp add: add_sz_def)
  moreover have "MIN_sz end (add_sz (start_addr (nodes s node)) (ema_size (nodes s node)))
                   \<le> add_sz (start_addr (nodes s node)) (ema_size (nodes s node))"
    by (simp add: MIN_sz_def)
  ultimately have lt: "?re < 2 ^ 64" using rng by simp
  have pp: "perm_pages r (emit s ?e) ?si ?prot new_prot ?rs ?re = Some (Returned (0, ?s2))"
    by (rule perm_pages_ok[OF acc lt])
  have f2: "frees_return (heap ?s2)" using fr by (simp add: emit_def)
  have t2: "trace ?s2 = trace s @ [?e] @ ?mid" by (simp add: emit_def)
  obtain ret3 node1 s3 where
    sp1: "split_if (?rs > start_addr (nodes ?s2 node)) ?s2 node ?rs False
            = Some (Returned (ret3, node1, s3))"
    and t3: "trace s3 = trace ?s2" and f3: "frees_return (heap s3)"
    using split_if_returns[OF f2] by blast
  obtain ret4 node2 s4 where
    sp2: "split_if (?re < add_sz (start_addr (nodes s3 node1)) (ema_size (nodes s3 node1)))
            s3 node1 ?re True = Some (Returned (ret4, node2, s4))"
    and t4: "trace s4 = trace s3"
    using split_if_returns[OF f3] by blast
  have u: "ema_modify_permissions r s node start end new_prot =
      (if ret3 \<noteq> 0 then Some (Returned (ret3, s3))
       else if ret4 \<noteq> 0 then Some (Returned (ret4, s4))
       else
         let s5 = s4\<lparr>nodes := (nodes s4)(node2 := (nodes s4 node2)
                     \<lparr>si_flags := (si_flags (nodes s4 node2) AND scast (NOT SGX_EMA_PROT_MASK))
                                    OR scast new_prot\<rparr>)\<rparr>
         in
         if new_prot = SGX_EMA_PROT_NONE then
           Some (Returned (0, emit s5 (MODIFY_OCALL ?rs (sub_sz ?re ?rs)
                   (?type OR SGX_EMA_PROT_NONE) (?type OR SGX_EMA_PROT_NONE))))
         else Some (Returned (ret4, s5)))"
    unfolding ema_modify_permissions_def Let_def
    by (simp only: ne ocall rng pp sp1 sp2 bind_res_simps prod.case simp_thms if_True if_False)
  show ?thesis
  proof (cases "ret3 \<noteq> 0")
    case True
    then have "ema_modify_permissions r s node start end new_prot = Some (Returned (ret3, s3))"
      using u by simp
    moreover have "trace s3 = trace s @ [?e] @ ?mid @ []" using t3 t2 by simp
    ultimately show ?thesis by (intro exI conjI) (assumption, assumption, simp_all)
  next
    case r3: False
    show ?thesis
    proof (cases "ret4 \<noteq> 0")
      case True
      then have "ema_modify_permissions r s node start end new_prot
                   = Some (Returned (ret4, s4))"
        using u r3 by simp
      moreover have "trace s4 = trace s @ [?e] @ ?mid @ []" using t4 t3 t2 by simp
      ultimately show ?thesis by (intro exI conjI) (assumption, assumption, simp_all)
    next
      case r4: False
      let ?s5 = "s4\<lparr>nodes := (nodes s4)(node2 := (nodes s4 node2)
                     \<lparr>si_flags := (si_flags (nodes s4 node2) AND scast (NOT SGX_EMA_PROT_MASK))
                                    OR scast new_prot\<rparr>)\<rparr>"
      let ?e2 = "MODIFY_OCALL ?rs (sub_sz ?re ?rs)
                   (?type OR SGX_EMA_PROT_NONE) (?type OR SGX_EMA_PROT_NONE)"
      show ?thesis
      proof (cases "new_prot = SGX_EMA_PROT_NONE")
        case True
        then have "ema_modify_permissions r s node start end new_prot
                     = Some (Returned (0, emit ?s5 ?e2))"
          using u r3 r4 by (simp add: Let_def)
        moreover have "trace (emit ?s5 ?e2) = trace s @ [?e] @ ?mid @ [?e2]"
          using t4 t3 t2 by (simp add: emit_def)
        ultimately show ?thesis by (intro exI conjI) (assumption, assumption, simp_all)
      next
        case False
        then have "ema_modify_permissions r s node start end new_prot
                     = Some (Returned (ret4, ?s5))"
          using u r3 r4 by (simp add: Let_def)
        moreover have "trace ?s5 = trace s @ [?e] @ ?mid @ []" using t4 t3 t2 by simp
        ultimately show ?thesis by (intro exI conjI) (assumption, assumption, simp_all)
      qed
    qed
  qed
qed

lemma page_events_mem:
  "EMODPE si p \<in> set (page_events si prot new_prot q) \<longleftrightarrow> new_prot OR prot \<noteq> prot \<and> q = p"
  "EACCEPT si p \<in> set (page_events si prot new_prot q) \<longleftrightarrow>
     new_prot AND (SGX_EMA_PROT_WRITE OR SGX_EMA_PROT_EXEC)
       \<noteq> SGX_EMA_PROT_WRITE OR SGX_EMA_PROT_EXEC \<and> q = p"
  by (auto simp: page_events_def)

lemma not_ocall: "is_ocall e \<Longrightarrow> e \<noteq> EMODPE si p \<and> e \<noteq> EACCEPT si p"
  by (cases e) auto

lemma adds_bit_iff: "(a OR b \<noteq> b) = (a AND NOT b \<noteq> 0)" for a b :: i32
  by (auto simp: bit_eq_iff bit_simps)

lemma documented_prot:
  assumes "new_prot \<in> {SGX_EMA_PROT_NONE, SGX_EMA_PROT_READ, SGX_EMA_PROT_READ_WRITE,
                       SGX_EMA_PROT_READ_EXEC, SGX_EMA_PROT_READ_WRITE_EXEC}"
  shows "(new_prot AND (SGX_EMA_PROT_WRITE OR SGX_EMA_PROT_EXEC)
            \<noteq> SGX_EMA_PROT_WRITE OR SGX_EMA_PROT_EXEC)
         = (new_prot \<noteq> SGX_EMA_PROT_READ_WRITE_EXEC)"
  using assms by (auto simp: ema_consts)

text \<open>
  Claim C8. Let the permission change reach the page loop (the new permissions differ from
  the current ones and the out-call to the untrusted side succeeds), let every EACCEPT
  succeed and every efree of the splits that follow return. Then ema_modify_permissions
  returns, and for every page of the part of the node inside the request, among the events
  that the call has added

  \<^item> there is an EMODPE for the page exactly when the new permissions have a bit that the old
    ones lack;
  \<^item> there is an EACCEPT(PR | REG | new_prot) for the page exactly when the new permissions
    lack WRITE or lack EXEC, which is the test of the code;
  \<^item> for the five permission sets that ema_imp.h documents for \<^verbatim>\<open>si_flags\<close> (NONE, READ,
    READ_WRITE, READ_EXEC, READ_WRITE_EXEC) that is exactly when the new permissions are not
    READ + WRITE + EXEC.
\<close>

theorem modify_permissions_page_instructions:
  assumes "(ucast (si_flags (nodes s node) AND scast SGX_EMA_PROT_MASK) :: i32) \<noteq> new_prot"
    and "MIN_sz end (add_sz (start_addr (nodes s node)) (ema_size (nodes s node))) =
         MAX_sz start (start_addr (nodes s node)) + n * SGX_PAGE_SIZE"
    and "\<And>tr a z f t. sgx_mm_modify_ocall r tr a z f t = 0"
    and "\<And>tr si a. do_eaccept r tr si a = 0"
    and "frees_return (heap s)"
    and "p \<in> set (page_addrs (MAX_sz start (start_addr (nodes s node))) n)"
  shows "\<exists>ret s'. ema_modify_permissions r s node start end new_prot = Some (Returned (ret, s')) \<and>
          (let prot = (ucast (si_flags (nodes s node) AND scast SGX_EMA_PROT_MASK) :: i32);
               si = scast new_prot OR scast SGX_EMA_PAGE_TYPE_REG OR SGX_EMA_STATE_PR;
               evs = drop (length (trace s)) (trace s')
           in (EMODPE si p \<in> set evs \<longleftrightarrow> new_prot AND NOT prot \<noteq> 0) \<and>
              (EACCEPT si p \<in> set evs \<longleftrightarrow>
                 new_prot AND (SGX_EMA_PROT_WRITE OR SGX_EMA_PROT_EXEC)
                   \<noteq> SGX_EMA_PROT_WRITE OR SGX_EMA_PROT_EXEC) \<and>
              (new_prot \<in> {SGX_EMA_PROT_NONE, SGX_EMA_PROT_READ, SGX_EMA_PROT_READ_WRITE,
                            SGX_EMA_PROT_READ_EXEC, SGX_EMA_PROT_READ_WRITE_EXEC} \<longrightarrow>
                 (EACCEPT si p \<in> set evs \<longleftrightarrow> new_prot \<noteq> SGX_EMA_PROT_READ_WRITE_EXEC)))"
proof -
  let ?prot = "(ucast (si_flags (nodes s node) AND scast SGX_EMA_PROT_MASK) :: i32)"
  let ?si = "scast new_prot OR scast SGX_EMA_PAGE_TYPE_REG OR SGX_EMA_STATE_PR"
  let ?pages = "page_addrs (MAX_sz start (start_addr (nodes s node))) n"
  let ?mid = "concat (map (page_events ?si ?prot new_prot) ?pages)"
  from ema_modify_permissions_trace[OF assms(1-5)]
  obtain ret s' e suf where
    res: "ema_modify_permissions r s node start end new_prot = Some (Returned (ret, s'))"
    and tr: "trace s' = trace s @ [e] @ ?mid @ suf"
    and oc: "is_ocall e" "\<forall>x\<in>set suf. is_ocall x"
    by blast
  have evs: "drop (length (trace s)) (trace s') = [e] @ ?mid @ suf"
    by (simp add: tr)
  have m: "EMODPE ?si p \<in> set ([e] @ ?mid @ suf) \<longleftrightarrow> new_prot OR ?prot \<noteq> ?prot"
    using oc assms(6) by (auto simp: page_events_mem dest: not_ocall)
  have a: "EACCEPT ?si p \<in> set ([e] @ ?mid @ suf) \<longleftrightarrow>
             new_prot AND (SGX_EMA_PROT_WRITE OR SGX_EMA_PROT_EXEC)
               \<noteq> SGX_EMA_PROT_WRITE OR SGX_EMA_PROT_EXEC"
    using oc assms(6) by (auto simp: page_events_mem dest: not_ocall)
  have k: "(EMODPE ?si p \<in> set (drop (length (trace s)) (trace s'))
            \<longleftrightarrow> new_prot AND NOT ?prot \<noteq> 0) \<and>
        (EACCEPT ?si p \<in> set (drop (length (trace s)) (trace s')) \<longleftrightarrow>
           new_prot AND (SGX_EMA_PROT_WRITE OR SGX_EMA_PROT_EXEC)
             \<noteq> SGX_EMA_PROT_WRITE OR SGX_EMA_PROT_EXEC) \<and>
        (new_prot \<in> {SGX_EMA_PROT_NONE, SGX_EMA_PROT_READ, SGX_EMA_PROT_READ_WRITE,
                      SGX_EMA_PROT_READ_EXEC, SGX_EMA_PROT_READ_WRITE_EXEC} \<longrightarrow>
           (EACCEPT ?si p \<in> set (drop (length (trace s)) (trace s'))
              \<longleftrightarrow> new_prot \<noteq> SGX_EMA_PROT_READ_WRITE_EXEC))"
    unfolding evs m a adds_bit_iff using documented_prot[of new_prot] by blast
  show ?thesis
    unfolding Let_def using res k by blast
qed

lemma page_addrs4': "page_addrs 0x20000 4 = [0x20000, 0x21000, 0x22000, 0x23000]"
  by (simp add: page_addrs_def SGX_PAGE_SIZE_def upt_rec)

text \<open>
  Witness for C8: the committed region of four pages, readable and writable, is made
  read-only. No bit is added, so there is no EMODPE; the page at \<^verbatim>\<open>0x21000\<close> is accepted.
\<close>

theorem modify_permissions_page_instructions_witness:
  "(ucast (si_flags (nodes (one_node committed_ema heap0) 0x5000) AND scast SGX_EMA_PROT_MASK)
      :: i32) \<noteq> SGX_EMA_PROT_READ \<and>
   MIN_sz 0x24000 (add_sz (start_addr (nodes (one_node committed_ema heap0) 0x5000))
                          (ema_size (nodes (one_node committed_ema heap0) 0x5000)))
     = MAX_sz 0x20000 (start_addr (nodes (one_node committed_ema heap0) 0x5000))
       + 4 * SGX_PAGE_SIZE \<and>
   frees_return (heap (one_node committed_ema heap0)) \<and>
   0x21000 \<in> set (page_addrs
                   (MAX_sz 0x20000 (start_addr (nodes (one_node committed_ema heap0) 0x5000))) 4) \<and>
   (\<exists>ret s'. ema_modify_permissions rt_ok (one_node committed_ema heap0) 0x5000 0x20000 0x24000
                SGX_EMA_PROT_READ = Some (Returned (ret, s')) \<and>
      EMODPE 0x221 0x21000 \<notin> set (trace s') \<and> EACCEPT 0x221 0x21000 \<in> set (trace s'))"
proof -
  have h1: "(ucast (si_flags (nodes (one_node committed_ema heap0) 0x5000)
               AND scast SGX_EMA_PROT_MASK) :: i32) \<noteq> SGX_EMA_PROT_READ"
    by (simp add: inputs ema_consts)
  have h2: "MIN_sz 0x24000 (add_sz (start_addr (nodes (one_node committed_ema heap0) 0x5000))
                          (ema_size (nodes (one_node committed_ema heap0) 0x5000)))
     = MAX_sz 0x20000 (start_addr (nodes (one_node committed_ema heap0) 0x5000))
       + 4 * SGX_PAGE_SIZE"
    by (simp add: inputs ema_consts add_sz_def)
  have h3: "0x21000 \<in> set (page_addrs
                   (MAX_sz 0x20000 (start_addr (nodes (one_node committed_ema heap0) 0x5000))) 4)"
    by (simp add: inputs ema_consts page_addrs4')
  have h5: "frees_return (heap (one_node committed_ema heap0))"
    by (simp add: one_node_def heap0_def frees_return_def)
  have t: "trace (one_node committed_ema heap0) = []" by (simp add: one_node_def)
  have si: "(scast SGX_EMA_PROT_READ OR scast SGX_EMA_PAGE_TYPE_REG OR SGX_EMA_STATE_PR :: u64)
              = 0x221"
    by (simp add: ema_consts)
  have v: "SGX_EMA_PROT_READ AND NOT (ucast (si_flags (nodes (one_node committed_ema heap0) 0x5000)
               AND scast SGX_EMA_PROT_MASK) :: i32) = 0"
     "SGX_EMA_PROT_READ AND (SGX_EMA_PROT_WRITE OR SGX_EMA_PROT_EXEC)
        \<noteq> SGX_EMA_PROT_WRITE OR SGX_EMA_PROT_EXEC"
    by (simp_all add: inputs ema_consts)
  have ok: "sgx_mm_modify_ocall rt_ok tr a z f g = 0" "do_eaccept rt_ok tr' si' a' = 0"
    for tr a z f g tr' si' a'
    by (simp_all add: rt_ok_def)
  from modify_permissions_page_instructions[OF h1 h2 ok h5 h3]
  obtain ret s' where
    "ema_modify_permissions rt_ok (one_node committed_ema heap0) 0x5000 0x20000 0x24000
       SGX_EMA_PROT_READ = Some (Returned (ret, s'))"
    "EMODPE 0x221 0x21000 \<notin> set (trace s')" "EACCEPT 0x221 0x21000 \<in> set (trace s')"
    unfolding Let_def t si using v by auto
  then show ?thesis using h1 h2 h3 h5 by blast
qed
end
